theory Spec2Isabelle
  imports Complex_Main "HOL-Library.Sublist" "HOL-Library.Word"
begin

section \<open>Data model\<close>

text \<open>
  The repository holds the toast widget twice: as one file, \<^verbatim>\<open>src/Toast.tsx\<close>, and
  split into \<^verbatim>\<open>managers/ToastManager.ts\<close>, \<^verbatim>\<open>components/Toast.tsx\<close>,
  \<^verbatim>\<open>hooks/useToast.ts\<close>. The component and the hook are the same code in both; the
  manager differs in \<^verbatim>\<open>setToastRef\<close>, \<^verbatim>\<open>setAnimating\<close> and \<^verbatim>\<open>show\<close>. The build
  selects which manager a function below follows.
\<close>

datatype build = Monolith | Modular

datatype ToastType = info | success | error

text \<open>JavaScript numbers that hold milliseconds and positions are rationals here.\<close>

record ToastOptions =
  duration :: "rat option"
  animationDuration :: "rat option"

text \<open>An entry of the manager's \<^verbatim>\<open>queue\<close> array.\<close>

record request =
  message :: "16 word list"
  toastType :: ToastType
  options :: "ToastOptions option"

record ToastConfig =
  cfg_text :: "16 word list option"
  cfg_type :: "ToastType option"
  cfg_visible :: bool
  cfg_duration :: rat
  cfg_animationDuration :: rat

text \<open>The two numeric props of the component; icons and colours play no part below.\<close>

record ToastComponentProps =
  defaultDuration :: "rat option"
  defaultAnimationDuration :: "rat option"

text \<open>
  The functions \<^verbatim>\<open>showToast\<close> and \<^verbatim>\<open>hideToast\<close> are declared in the body of the
  component, so each render creates them anew and they read the props and the
  \<^verbatim>\<open>config\<close> of that render. A \<^verbatim>\<open>ToastRef\<close> object (the \<^verbatim>\<open>refObject\<close> of the
  mount effect, or the imperative handle) is a pair of such closures: it is represented by
  what its render captured.
\<close>

record render =
  props :: ToastComponentProps
  config :: ToastConfig

type_synonym ToastRef = render

text \<open>
  A callback handed to \<^verbatim>\<open>hide\<close>: a function of the application, known by a label
  only, or the closure that \<^verbatim>\<open>ToastManager.hide\<close> builds around the caller's optional
  callback.
\<close>

datatype callback = UserCallback nat | ManagerHideCallback "nat option"

text \<open>
  A Reanimated transition as \<^verbatim>\<open>withTiming\<close> and \<^verbatim>\<open>withDelay\<close> describe it; the only
  completion callback of the source is the one that runs \<^verbatim>\<open>completeHideAnimation\<close>.
\<close>

datatype completion = CompleteHide "callback option"

record animation =
  toValue :: rat
  anim_duration :: rat
  anim_delay :: rat
  onFinish :: "completion option"

record sharedValue =
  sv_value :: rat
  sv_running :: "animation option"

text \<open>What a \<^verbatim>\<open>setTimeout\<close> of the component will run.\<close>

datatype task = StartShow render rat rat | AutoHide render

text \<open>The only function ever passed to \<^verbatim>\<open>onReady\<close>.\<close>

datatype listener = ProcessQueueListener

text \<open>
  The state of the manager singleton and of the one mounted component, with what the
  JavaScript environment holds for them: \<open>timeouts\<close> are the callbacks the component has
  passed to \<^verbatim>\<open>setTimeout\<close> and that have neither fired nor been cleared, each with its
  identifier, and \<open>nextTimeout\<close> is the next identifier (identifiers are positive, so a
  stored one is truthy). Two histories make calls observable: \<open>fired\<close> lists the
  application callbacks that have been called, and \<open>displayed\<close> lists what \<^verbatim>\<open>showToast\<close>
  has put into \<^verbatim>\<open>config\<close> for display (text, type, animation duration, display
  duration). \<open>configState\<close> is the React state \<^verbatim>\<open>config\<close> after all updates queued so
  far; \<^verbatim>\<open>textWidth\<close> is an argument of the effect that reads it.
\<close>

record system =
  \<comment> \<open>ToastManagerSingleton\<close>
  toastRef :: "ToastRef option"
  listeners :: "listener list"
  isAnimating :: bool
  queue :: "request list"
  lastToastTime :: int
  \<comment> \<open>the Toast component\<close>
  configState :: ToastConfig
  timer :: "nat option"
  isAnimating_ref :: bool
  transY :: sharedValue
  toastWidth :: sharedValue
  textOpacity :: sharedValue
  \<comment> \<open>the environment\<close>
  timeouts :: "(nat \<times> task) list"
  nextTimeout :: nat
  fired :: "nat list"
  displayed :: "(16 word list \<times> ToastType \<times> rat \<times> rat) list"

definition CONTAINER_SIZE :: rat where
  "CONTAINER_SIZE = 20 + 12 * 2"

definition MAX_QUEUE_SIZE :: nat where
  "MAX_QUEUE_SIZE = 2"

definition THROTTLE_DELAY :: int where
  "THROTTLE_DELAY = 300"

section \<open>Strings\<close>

text \<open>
  A JavaScript string is a sequence of UTF-16 code units. \<^verbatim>\<open>String.prototype.trim\<close>
  removes from both ends the code points that ECMAScript calls white space or line
  terminator: U+0009 to U+000D, U+0020, U+00A0, U+1680, U+2000 to U+200A, U+2028, U+2029,
  U+202F, U+205F, U+3000 and U+FEFF. All of them are single code units, and no half of a
  surrogate pair is among them, so trimming code units is trimming code points.
\<close>

type_synonym jsstring = "16 word list"

definition isWhiteSpace :: "16 word \<Rightarrow> bool" where
  "isWhiteSpace c =
     (c \<in> set [0x0009, 0x000A, 0x000B, 0x000C, 0x000D, 0x0020, 0x00A0, 0x1680,
                0x2000, 0x2001, 0x2002, 0x2003, 0x2004, 0x2005, 0x2006, 0x2007, 0x2008,
                0x2009, 0x200A, 0x2028, 0x2029, 0x202F, 0x205F, 0x3000, 0xFEFF])"

definition trim :: "jsstring \<Rightarrow> jsstring" where
  "trim m = rev (dropWhile isWhiteSpace (rev (dropWhile isWhiteSpace m)))"

text \<open>The test \<^verbatim>\<open>!message || message.trim() === ""\<close> on a string.\<close>

definition blank :: "jsstring \<Rightarrow> bool" where
  "blank m = (m = [] \<or> trim m = [])"

text \<open>The JavaScript string whose code units are the codes of the given characters.\<close>

definition str :: "string \<Rightarrow> jsstring" where
  "str cs = map of_char cs"

section \<open>Timers and transitions\<close>

definition setTimeout :: "task \<Rightarrow> system \<Rightarrow> system" where
  "setTimeout t s = s\<lparr>timeouts := timeouts s @ [(nextTimeout s, t)], nextTimeout := Suc (nextTimeout s)\<rparr>"

definition clearTimeout :: "nat \<Rightarrow> system \<Rightarrow> system" where
  "clearTimeout i s = s\<lparr>timeouts := filter (\<lambda>p. fst p \<noteq> i) (timeouts s)\<rparr>"

text \<open>
  Cancelling discards the transition and its completion function; whether Reanimated
  still calls the completion function of a cancelled transition is outside the model.
\<close>

definition cancelAnimation :: "sharedValue \<Rightarrow> sharedValue" where
  "cancelAnimation v = v\<lparr>sv_running := None\<rparr>"

definition withTiming :: "rat \<Rightarrow> rat \<Rightarrow> completion option \<Rightarrow> animation" where
  "withTiming target d cb = \<lparr>toValue = target, anim_duration = d, anim_delay = 0, onFinish = cb\<rparr>"

definition withDelay :: "rat \<Rightarrow> animation \<Rightarrow> animation" where
  "withDelay d a = a\<lparr>anim_delay := d\<rparr>"

definition assignAnimation :: "animation \<Rightarrow> sharedValue \<Rightarrow> sharedValue" where
  "assignAnimation a v = v\<lparr>sv_running := Some a\<rparr>"

definition assignValue :: "rat \<Rightarrow> sharedValue \<Rightarrow> sharedValue" where
  "assignValue x v = \<lparr>sv_value = x, sv_running = None\<rparr>"

section \<open>The component's display path and the manager's queue\<close>

definition propDuration :: "ToastComponentProps \<Rightarrow> rat" where
  "propDuration p = (case defaultDuration p of None \<Rightarrow> 4000 | Some d \<Rightarrow> d)"

definition propAnimationDuration :: "ToastComponentProps \<Rightarrow> rat" where
  "propAnimationDuration p = (case defaultAnimationDuration p of None \<Rightarrow> 400 | Some d \<Rightarrow> d)"

text \<open>\<^verbatim>\<open>options?.duration || defaultDuration\<close>: an absent or zero number is falsy.\<close>

definition orDefault :: "rat option \<Rightarrow> rat \<Rightarrow> rat" where
  "orDefault x d = (case x of None \<Rightarrow> d | Some v \<Rightarrow> if v = 0 then d else v)"

definition optDuration :: "ToastOptions option \<Rightarrow> rat option" where
  "optDuration opts = (case opts of None \<Rightarrow> None | Some o' \<Rightarrow> duration o')"

definition optAnimationDuration :: "ToastOptions option \<Rightarrow> rat option" where
  "optAnimationDuration opts = (case opts of None \<Rightarrow> None | Some o' \<Rightarrow> animationDuration o')"

text \<open>
  \<^verbatim>\<open>processQueue\<close> calls \<^verbatim>\<open>toastRef.show\<close>, the component's \<^verbatim>\<open>show\<close> calls
  \<^verbatim>\<open>showToast\<close>, which reports to the manager through \<^verbatim>\<open>updateAnimationStatus\<close>
  and \<^verbatim>\<open>ToastManager.setAnimating\<close>, which in \<^verbatim>\<open>src/Toast.tsx\<close> calls
  \<^verbatim>\<open>processQueue\<close> again. The argument \<open>now\<close> is what \<^verbatim>\<open>Date.now()\<close> returns during
  the call.
\<close>

function processQueue :: "build \<Rightarrow> int \<Rightarrow> system \<Rightarrow> system"
  and setAnimating :: "build \<Rightarrow> bool \<Rightarrow> int \<Rightarrow> system \<Rightarrow> system"
  and updateAnimationStatus :: "build \<Rightarrow> bool \<Rightarrow> int \<Rightarrow> system \<Rightarrow> system"
  and showToast :: "build \<Rightarrow> render \<Rightarrow> jsstring \<Rightarrow> ToastType \<Rightarrow> rat \<Rightarrow> rat \<Rightarrow> int \<Rightarrow> system \<Rightarrow> system"
  and ref_show :: "build \<Rightarrow> render \<Rightarrow> jsstring \<Rightarrow> ToastType \<Rightarrow> ToastOptions option \<Rightarrow> int \<Rightarrow> system \<Rightarrow> system"
where
  "processQueue b now s =
     (if \<not> isAnimating s \<and> length (queue s) > 0 \<and> toastRef s \<noteq> None then
        (case queue s of
           [] \<Rightarrow> s
         | nextToast # rest \<Rightarrow>
             (if \<not> blank (message nextToast) then
                ref_show b (the (toastRef s)) (message nextToast) (toastType nextToast)
                  (options nextToast) now
                  (s\<lparr>queue := rest, isAnimating := True, lastToastTime := now\<rparr>)
              else processQueue b now (s\<lparr>queue := rest\<rparr>)))
      else s)"
| "setAnimating b a now s =
     (case b of
        Monolith \<Rightarrow> (if \<not> a then processQueue b now (s\<lparr>isAnimating := a\<rparr>)
                     else s\<lparr>isAnimating := a\<rparr>)
      | Modular \<Rightarrow> s\<lparr>isAnimating := a\<rparr>)"
| "updateAnimationStatus b status now s =
     setAnimating b status now (s\<lparr>isAnimating_ref := status\<rparr>)"
| "showToast b r text ty animDur displayDur now s =
     (if blank text then updateAnimationStatus b False now s
      else
        (let s1 = (case timer s of None \<Rightarrow> s | Some i \<Rightarrow> clearTimeout i s);
             s2 = s1\<lparr>transY := cancelAnimation (transY s1),
                      toastWidth := cancelAnimation (toastWidth s1),
                      textOpacity := cancelAnimation (textOpacity s1)\<rparr>;
             s3 = updateAnimationStatus b True now s2;
             s4 = s3\<lparr>toastWidth := assignValue CONTAINER_SIZE (toastWidth s3),
                      textOpacity := assignValue 0 (textOpacity s3)\<rparr>;
             s5 = s4\<lparr>configState := \<lparr>cfg_text = Some text, cfg_type = Some ty, cfg_visible = True,
                        cfg_duration = displayDur, cfg_animationDuration = animDur\<rparr>,
                      displayed := displayed s4 @ [(text, ty, animDur, displayDur)]\<rparr>
         in setTimeout (StartShow r animDur displayDur) s5))"
| "ref_show b r msg ty opts now s =
     (if blank msg then updateAnimationStatus b False now s
      else showToast b r msg ty
             (orDefault (optAnimationDuration opts) (propAnimationDuration (props r)))
             (orDefault (optDuration opts) (propDuration (props r))) now s)"
  by pat_completeness auto

termination
  by (relation "measure (\<lambda>x. case x of
         Inl (Inl (b, now, s)) \<Rightarrow> 5 * length (queue s)
       | Inl (Inr (b, a, now, s)) \<Rightarrow> 5 * length (queue s) + 1
       | Inr (Inl (b, a, now, s)) \<Rightarrow> 5 * length (queue s) + 2
       | Inr (Inr (Inl (b, r, m, ty, ad, dd, now, s))) \<Rightarrow> 5 * length (queue s) + 3
       | Inr (Inr (Inr (b, r, m, ty, opts, now, s))) \<Rightarrow> 5 * length (queue s) + 4)")
     (auto simp: clearTimeout_def split: option.splits)

section \<open>Callbacks and the component's hide path\<close>

text \<open>
  Running a callback. A callback of the application is recorded in \<open>fired\<close>; what it does
  beyond that is outside the model. The closure of \<^verbatim>\<open>ToastManager.hide\<close> is
  \<^verbatim>\<open>() => { this.isAnimating = false; if (callback) callback(); this.processQueue(); }\<close>.
\<close>

definition invoke :: "build \<Rightarrow> callback \<Rightarrow> int \<Rightarrow> system \<Rightarrow> system" where
  "invoke b c now s =
     (case c of
        UserCallback n \<Rightarrow> s\<lparr>fired := fired s @ [n]\<rparr>
      | ManagerHideCallback u \<Rightarrow>
          (let s1 = s\<lparr>isAnimating := False\<rparr>;
               s2 = (case u of None \<Rightarrow> s1 | Some n \<Rightarrow> s1\<lparr>fired := fired s1 @ [n]\<rparr>)
           in processQueue b now s2))"

text \<open>
  \<open>sv_value\<close> is the value a shared value last settled at; the source reads
  \<^verbatim>\<open>transY.value\<close>, which lies between the old and the new value while a transition runs.
\<close>

definition hideToast :: "build \<Rightarrow> render \<Rightarrow> callback option \<Rightarrow> int \<Rightarrow> system \<Rightarrow> system" where
  "hideToast b r cb now s =
     (if \<not> isAnimating_ref s \<and> sv_value (transY s) = - 100 then
        (case cb of None \<Rightarrow> s | Some c \<Rightarrow> invoke b c now s)
      else
        (let s1 = (case timer s of None \<Rightarrow> s | Some i \<Rightarrow> (clearTimeout i s)\<lparr>timer := None\<rparr>);
             animDuration = cfg_animationDuration (config r);
             s2 = s1\<lparr>transY := cancelAnimation (transY s1),
                      toastWidth := cancelAnimation (toastWidth s1),
                      textOpacity := cancelAnimation (textOpacity s1)\<rparr>;
             s3 = s2\<lparr>textOpacity :=
                        assignAnimation (withTiming 0 (animDuration / 2) None) (textOpacity s2)\<rparr>;
             s4 = s3\<lparr>toastWidth :=
                        assignAnimation
                          (withDelay (animDuration / 2)
                             (withTiming CONTAINER_SIZE (animDuration / 2) None))
                          (toastWidth s3)\<rparr>
         in s4\<lparr>transY :=
                 assignAnimation
                   (withDelay animDuration
                      (withTiming (- 100) animDuration (Some (CompleteHide cb))))
                   (transY s4)\<rparr>))"

definition resetConfig :: "system \<Rightarrow> system" where
  "resetConfig s =
     s\<lparr>configState := (configState s)\<lparr>cfg_text := None, cfg_type := None, cfg_visible := False\<rparr>\<rparr>"

definition completeHideAnimation :: "build \<Rightarrow> callback option \<Rightarrow> int \<Rightarrow> system \<Rightarrow> system" where
  "completeHideAnimation b cb now s =
     (let s1 = updateAnimationStatus b False now s;
          s2 = resetConfig s1
      in case cb of None \<Rightarrow> s2 | Some c \<Rightarrow> invoke b c now s2)"

section \<open>The manager\<close>

definition isValidToastRequest :: "jsstring \<Rightarrow> bool" where
  "isValidToastRequest m = (trim m \<noteq> [])"

definition callListener :: "build \<Rightarrow> listener \<Rightarrow> int \<Rightarrow> system \<Rightarrow> system" where
  "callListener b l now s = (case l of ProcessQueueListener \<Rightarrow> processQueue b now s)"

definition onReady :: "build \<Rightarrow> listener \<Rightarrow> int \<Rightarrow> system \<Rightarrow> system" where
  "onReady b l now s =
     (if toastRef s \<noteq> None then callListener b l now s
      else s\<lparr>listeners := listeners s @ [l]\<rparr>)"

fun setToastRef :: "build \<Rightarrow> ToastRef option \<Rightarrow> int \<Rightarrow> system \<Rightarrow> system" where
  "setToastRef Monolith ref now s =
     (case ref of
        None \<Rightarrow> s
      | Some r \<Rightarrow>
          (let s1 = s\<lparr>toastRef := Some r\<rparr>;
               s2 = fold (\<lambda>l. callListener Monolith l now) (listeners s1) s1;
               s3 = s2\<lparr>listeners := []\<rparr>
           in processQueue Monolith now s3))"
| "setToastRef Modular ref now s = s\<lparr>toastRef := ref\<rparr>"

text \<open>
  \<^verbatim>\<open>ToastManager.show\<close>. The parameter \<^verbatim>\<open>type\<close> defaults to \<^verbatim>\<open>"info"\<close>: a caller who
  leaves it out passes \<open>info\<close> here.
\<close>

fun mgr_show :: "build \<Rightarrow> jsstring \<Rightarrow> ToastType \<Rightarrow> ToastOptions option \<Rightarrow> int \<Rightarrow> system \<Rightarrow> system" where
  "mgr_show Monolith msg ty opts now s =
     (if \<not> isValidToastRequest msg then s
      else if now - lastToastTime s < THROTTLE_DELAY then
        (if length (queue s) < MAX_QUEUE_SIZE then
           s\<lparr>queue := queue s @ [\<lparr>message = msg, toastType = ty, options = opts\<rparr>]\<rparr>
         else s)
      else if toastRef s \<noteq> None \<and> \<not> isAnimating s then
        ref_show Monolith (the (toastRef s)) msg ty opts now
          (s\<lparr>isAnimating := True, lastToastTime := now\<rparr>)
      else if length (queue s) < MAX_QUEUE_SIZE then
        (let s1 = s\<lparr>queue := queue s @ [\<lparr>message = msg, toastType = ty, options = opts\<rparr>]\<rparr>
         in if toastRef s1 = None then onReady Monolith ProcessQueueListener now s1 else s1)
      else s)"
| "mgr_show Modular msg ty opts now s =
     (if blank msg then s
      else if now - lastToastTime s < THROTTLE_DELAY \<or> isAnimating s then s
      else
        (let s1 = s\<lparr>lastToastTime := now\<rparr>
         in case toastRef s1 of
              None \<Rightarrow> s1
            | Some r \<Rightarrow> ref_show Modular r msg ty opts now (s1\<lparr>isAnimating := True\<rparr>)))"

definition mgr_hide :: "build \<Rightarrow> nat option \<Rightarrow> int \<Rightarrow> system \<Rightarrow> system" where
  "mgr_hide b cb now s =
     (case toastRef s of
        None \<Rightarrow> s
      | Some r \<Rightarrow> hideToast b r (Some (ManagerHideCallback cb)) now s)"

section \<open>The hook\<close>

definition useToast_showToast ::
  "build \<Rightarrow> jsstring \<Rightarrow> ToastType \<Rightarrow> ToastOptions option \<Rightarrow> int \<Rightarrow> system \<Rightarrow> system" where
  "useToast_showToast b msg ty opts now s = (if blank msg then s else mgr_show b msg ty opts now s)"

definition useToast_hideToast :: "build \<Rightarrow> nat option \<Rightarrow> int \<Rightarrow> system \<Rightarrow> system" where
  "useToast_hideToast b cb now s = mgr_hide b cb now s"

section \<open>Timers firing and transitions finishing\<close>

fun runTask :: "build \<Rightarrow> task \<Rightarrow> int \<Rightarrow> system \<Rightarrow> system" where
  "runTask b (StartShow r animDur displayDur) now s =
     (let s1 = s\<lparr>transY := assignAnimation (withTiming 80 animDur None) (transY s)\<rparr>;
          s2 = setTimeout (AutoHide r) s1
      in s2\<lparr>timer := Some (nextTimeout s1)\<rparr>)"
| "runTask b (AutoHide r) now s = hideToast b r None now s"

definition fireTimeout :: "build \<Rightarrow> nat \<Rightarrow> int \<Rightarrow> system \<Rightarrow> system" where
  "fireTimeout b i now s =
     (case map_of (timeouts s) i of
        None \<Rightarrow> s
      | Some t \<Rightarrow> runTask b t now (s\<lparr>timeouts := filter (\<lambda>p. fst p \<noteq> i) (timeouts s)\<rparr>))"

definition settle :: "sharedValue \<Rightarrow> sharedValue" where
  "settle v = (case sv_running v of None \<Rightarrow> v | Some a \<Rightarrow> \<lparr>sv_value = toValue a, sv_running = None\<rparr>)"

definition finishTransY :: "build \<Rightarrow> int \<Rightarrow> system \<Rightarrow> system" where
  "finishTransY b now s =
     (case sv_running (transY s) of
        None \<Rightarrow> s
      | Some a \<Rightarrow>
          (let s1 = s\<lparr>transY := settle (transY s)\<rparr>
           in case onFinish a of
                None \<Rightarrow> s1
              | Some (CompleteHide cb) \<Rightarrow> completeHideAnimation b cb now s1))"

definition finishToastWidth :: "system \<Rightarrow> system" where
  "finishToastWidth s = s\<lparr>toastWidth := settle (toastWidth s)\<rparr>"

definition finishTextOpacity :: "system \<Rightarrow> system" where
  "finishTextOpacity s = s\<lparr>textOpacity := settle (textOpacity s)\<rparr>"

text \<open>
  The effect that runs when the measured text width changes; \<open>screenWidth\<close> is
  \<^verbatim>\<open>Dimensions.get("window").width\<close> and \<^verbatim>\<open>PADDING\<close> is 12.
\<close>

definition textWidthEffect :: "rat \<Rightarrow> rat \<Rightarrow> system \<Rightarrow> system" where
  "textWidthEffect screenWidth textWidth s =
     (if textWidth > 0 \<and> cfg_text (configState s) \<noteq> None \<and> cfg_text (configState s) \<noteq> Some []
         \<and> cfg_visible (configState s) then
        (let totalWidth = min (CONTAINER_SIZE + textWidth + 12) (screenWidth - 32);
             d = cfg_animationDuration (configState s);
             s1 = s\<lparr>toastWidth := cancelAnimation (toastWidth s),
                     textOpacity := cancelAnimation (textOpacity s)\<rparr>;
             s2 = s1\<lparr>toastWidth := assignAnimation (withDelay d (withTiming totalWidth d None)) (toastWidth s1)\<rparr>
         in s2\<lparr>textOpacity := assignAnimation (withDelay (d * 2) (withTiming 1 d None)) (textOpacity s2)\<rparr>)
      else s)"

section \<open>Runs of the system\<close>

definition initial :: "ToastComponentProps \<Rightarrow> system" where
  "initial p =
     \<lparr>toastRef = None, listeners = [], isAnimating = False, queue = [], lastToastTime = 0,
      configState = \<lparr>cfg_text = None, cfg_type = None, cfg_visible = False,
                      cfg_duration = propDuration p,
                      cfg_animationDuration = propAnimationDuration p\<rparr>,
      timer = None, isAnimating_ref = False,
      transY = \<lparr>sv_value = - 100, sv_running = None\<rparr>,
      toastWidth = \<lparr>sv_value = CONTAINER_SIZE, sv_running = None\<rparr>,
      textOpacity = \<lparr>sv_value = 0, sv_running = None\<rparr>,
      timeouts = [], nextTimeout = 1, fired = [], displayed = []\<rparr>"

text \<open>
  Everything that can happen to the manager and the component: the calls of the
  application (through the manager, the hook or the component's handle), timers firing,
  transitions finishing, the text being measured.
\<close>

datatype event =
    ManagerShow jsstring ToastType "ToastOptions option"
  | ManagerHide "nat option"
  | SetToastRef "ToastRef option"
  | SetAnimating bool
  | HookShow jsstring ToastType "ToastOptions option"
  | HookHide "nat option"
  | RefShow render jsstring ToastType "ToastOptions option"
  | RefHide render "nat option"
  | FireTimeout nat
  | FinishTransY
  | FinishToastWidth
  | FinishTextOpacity
  | TextMeasured rat rat

fun step :: "build \<Rightarrow> event \<Rightarrow> int \<Rightarrow> system \<Rightarrow> system" where
  "step b (ManagerShow m ty opts) now s = mgr_show b m ty opts now s"
| "step b (ManagerHide cb) now s = mgr_hide b cb now s"
| "step b (SetToastRef r) now s = setToastRef b r now s"
| "step b (SetAnimating a) now s = setAnimating b a now s"
| "step b (HookShow m ty opts) now s = useToast_showToast b m ty opts now s"
| "step b (HookHide cb) now s = useToast_hideToast b cb now s"
| "step b (RefShow r m ty opts) now s = ref_show b r m ty opts now s"
| "step b (RefHide r cb) now s = hideToast b r (map_option UserCallback cb) now s"
| "step b (FireTimeout i) now s = fireTimeout b i now s"
| "step b FinishTransY now s = finishTransY b now s"
| "step b FinishToastWidth now s = finishToastWidth s"
| "step b FinishTextOpacity now s = finishTextOpacity s"
| "step b (TextMeasured w tw) now s = textWidthEffect w tw s"

fun run :: "build \<Rightarrow> (event \<times> int) list \<Rightarrow> system \<Rightarrow> system" where
  "run b [] s = s"
| "run b (e # es) s = run b es (step b (fst e) (snd e) s)"

section \<open>Closed forms used in the proofs\<close>

text \<open>
  What \<^verbatim>\<open>showToast\<close> does to the state when the text is not blank, what the queue
  looks like once its leading blank entries are skipped, and the record that
  \<^verbatim>\<open>showToast\<close> appends to \<open>displayed\<close> for a queue entry shown through the handle \<open>r\<close>.
\<close>

definition started :: "render \<Rightarrow> jsstring \<Rightarrow> ToastType \<Rightarrow> rat \<Rightarrow> rat \<Rightarrow> system \<Rightarrow> system" where
  "started r text ty animDur displayDur s =
     s\<lparr>isAnimating := True, isAnimating_ref := True,
       configState := \<lparr>cfg_text = Some text, cfg_type = Some ty, cfg_visible = True,
                        cfg_duration = displayDur, cfg_animationDuration = animDur\<rparr>,
       transY := cancelAnimation (transY s),
       toastWidth := assignValue CONTAINER_SIZE (toastWidth s),
       textOpacity := assignValue 0 (textOpacity s),
       timeouts := (case timer s of None \<Rightarrow> timeouts s
                    | Some i \<Rightarrow> filter (\<lambda>p. fst p \<noteq> i) (timeouts s))
                   @ [(nextTimeout s, StartShow r animDur displayDur)],
       nextTimeout := Suc (nextTimeout s),
       displayed := displayed s @ [(text, ty, animDur, displayDur)]\<rparr>"

definition firstValid :: "request list \<Rightarrow> request list" where
  "firstValid q = dropWhile (\<lambda>e. blank (message e)) q"

definition entry :: "render \<Rightarrow> request \<Rightarrow> jsstring \<times> ToastType \<times> rat \<times> rat" where
  "entry r e =
     (message e, toastType e,
      orDefault (optAnimationDuration (options e)) (propAnimationDuration (props r)),
      orDefault (optDuration (options e)) (propDuration (props r)))"

section \<open>Concrete states for the examples\<close>

definition noProps :: ToastComponentProps where
  "noProps = \<lparr>defaultDuration = None, defaultAnimationDuration = None\<rparr>"

text \<open>The closures of the first render of a component mounted without props.\<close>

definition firstRender :: render where
  "firstRender = \<lparr>props = noProps, config = configState (initial noProps)\<rparr>"

text \<open>The mounted component, and the state while the toast \<open>A\<close> is on display.\<close>

definition mounted :: "build \<Rightarrow> system" where
  "mounted b = setToastRef b (Some firstRender) 0 (initial noProps)"

definition showingA :: "build \<Rightarrow> system" where
  "showingA b = mgr_show b (str ''A'') info None 1000 (mounted b)"


text \<open>Four requests in quick succession.\<close>

definition burst :: "(event \<times> int) list" where
  "burst = [(ManagerShow (str ''A'') info None, 1000), (ManagerShow (str ''B'') info None, 1010),
            (ManagerShow (str ''C'') info None, 1020), (ManagerShow (str ''D'') info None, 1030)]"

text \<open>Three requests made before any component is mounted.\<close>

definition early :: "(event \<times> int) list" where
  "early = [(ManagerShow (str ''A'') info None, 1000), (ManagerShow (str ''B'') info None, 1010),
            (ManagerShow (str ''C'') info None, 1020)]"

text \<open>The invariant of the queue: at most two entries, none of them blank.\<close>

definition queue_ok :: "system \<Rightarrow> bool" where
  "queue_ok s = (length (queue s) \<le> MAX_QUEUE_SIZE \<and> list_all (\<lambda>e. \<not> blank (message e)) (queue s))"

text \<open>The test by which \<^verbatim>\<open>hideToast\<close> decides that the toast is already hidden.\<close>

definition hidden :: "system \<Rightarrow> bool" where
  "hidden s = (\<not> isAnimating_ref s \<and> sv_value (transY s) = - 100)"

text \<open>The label of the application's callback inside what \<^verbatim>\<open>hideToast\<close> receives.\<close>

fun callbackLabels :: "callback option \<Rightarrow> nat list" where
  "callbackLabels None = []"
| "callbackLabels (Some (UserCallback c)) = [c]"
| "callbackLabels (Some (ManagerHideCallback None)) = []"
| "callbackLabels (Some (ManagerHideCallback (Some c))) = [c]"

text \<open>
  The life of one displayed toast when nothing else happens in between: the driver's
  \<^verbatim>\<open>show\<close> at time \<open>t1\<close>, the zero-delay timer of \<^verbatim>\<open>showToast\<close> that starts the entry
  transition and arms the auto-dismiss timer, the auto-dismiss timer, and the end of the
  exit transition of the position at time \<open>t4\<close>.
\<close>

definition lifecycle ::
  "build \<Rightarrow> render \<Rightarrow> jsstring \<Rightarrow> ToastType \<Rightarrow> ToastOptions option \<Rightarrow> int \<Rightarrow> int \<Rightarrow> int \<Rightarrow> int
     \<Rightarrow> system \<Rightarrow> system" where
  "lifecycle b r m ty opts t1 t2 t3 t4 s =
     finishTransY b t4
       (fireTimeout b (Suc (nextTimeout s)) t3
          (fireTimeout b (nextTimeout s) t2
             (ref_show b r m ty opts t1 s)))"

text \<open>Timer identifiers handed out so far are below the next one.\<close>

definition timeouts_ok :: "system \<Rightarrow> bool" where
  "timeouts_ok s = list_all (\<lambda>p. fst p < nextTimeout s) (timeouts s)"

text \<open>
  The toast \<open>A\<close> is displayed, \<open>B\<close> is requested 100 ms later, and nothing else is asked
  of the manager until the exit transition of \<open>A\<close> has finished.
\<close>

definition thenQueued :: "(event \<times> int) list" where
  "thenQueued = [(SetToastRef (Some firstRender), 0), (ManagerShow (str ''A'') info None, 1000),
                 (FireTimeout 1, 1000), (ManagerShow (str ''B'') info None, 1100),
                 (FireTimeout 2, 5000), (FinishTransY, 5800)]"

text \<open>
  The same run, followed by what is left of the lifecycle of \<open>B\<close>: the timer that starts
  its entry transition, the end of that transition, its auto-dismiss timer and the end of
  its exit transition.
\<close>

definition thenDrained :: "(event \<times> int) list" where
  "thenDrained = thenQueued @ [(FireTimeout 3, 5800), (FinishTransY, 6200),
                               (FireTimeout 4, 9800), (FinishTransY, 10600)]"

text \<open>
  Whether the component renders anything: its body ends with
  \<^verbatim>\<open>if (!config.text || config.text.trim() === "") return null\<close>.
\<close>

definition renders :: "system \<Rightarrow> bool" where
  "renders s = (case cfg_text (configState s) of None \<Rightarrow> False | Some t \<Rightarrow> \<not> blank t)"

text \<open>
  A component mounted without props shows the toast \<open>A\<close> with an animation duration of
  1000 ms; the text is measured and the entry transitions run. In \<open>autoDismissed\<close> they
  finish and the auto-dismiss timer fires; in \<open>dismissedEarly\<close> the application calls
  \<^verbatim>\<open>ToastManager.hide\<close> with a callback while the auto-dismiss timer is pending and the
  transitions of the width and the opacity are running.
\<close>

definition slowToast :: "(event \<times> int) list" where
  "slowToast = [(SetToastRef (Some firstRender), 0),
                (ManagerShow (str ''A'') info
                   (Some \<lparr>duration = None, animationDuration = Some 1000\<rparr>), 1000),
                (FireTimeout 1, 1000), (TextMeasured 390 120, 1010), (FinishTransY, 2000)]"

definition autoDismissed :: "(event \<times> int) list" where
  "autoDismissed = slowToast @ [(FinishToastWidth, 3000), (FinishTextOpacity, 4000),
                                (FireTimeout 2, 5000)]"

definition dismissedEarly :: "(event \<times> int) list" where
  "dismissedEarly = slowToast @ [(ManagerHide (Some 7), 2500)]"

section \<open>Basic facts\<close>

declare processQueue.simps [simp del] setAnimating.simps [simp del]
  updateAnimationStatus.simps [simp del] showToast.simps [simp del] ref_show.simps [simp del]

lemma blank_iff: "blank m = (trim m = [])"
  by (auto simp: blank_def trim_def)

lemma setAnimating_True: "setAnimating b True now s = s\<lparr>isAnimating := True\<rparr>"
  by (cases b) (simp_all add: setAnimating.simps)

lemma setAnimating_Modular: "setAnimating Modular a now s = s\<lparr>isAnimating := a\<rparr>"
  by (simp add: setAnimating.simps)

lemma setAnimating_Monolith_False:
  "setAnimating Monolith False now s = processQueue Monolith now (s\<lparr>isAnimating := False\<rparr>)"
  by (simp add: setAnimating.simps)

lemma updateAnimationStatus_True:
  "updateAnimationStatus b True now s = s\<lparr>isAnimating_ref := True, isAnimating := True\<rparr>"
  by (simp add: updateAnimationStatus.simps setAnimating_True)

lemma showToast_nonblank:
  "\<not> blank text \<Longrightarrow> showToast b r text ty ad dd now s = started r text ty ad dd s"
  by (simp add: showToast.simps updateAnimationStatus_True Let_def started_def
      setTimeout_def clearTimeout_def assignValue_def cancelAnimation_def split: option.splits)

lemma ref_show_nonblank:
  "\<not> blank m \<Longrightarrow> ref_show b r m ty opts now s =
     started r m ty (orDefault (optAnimationDuration opts) (propAnimationDuration (props r)))
       (orDefault (optDuration opts) (propDuration (props r))) s"
  by (simp add: ref_show.simps showToast_nonblank)

lemma processQueue_idle:
  "isAnimating s \<or> queue s = [] \<or> toastRef s = None \<Longrightarrow> processQueue b now s = s"
  by (auto simp: processQueue.simps)

lemma processQueue_closed:
  "processQueue b now s =
     (if \<not> isAnimating s \<and> toastRef s \<noteq> None then
        (case firstValid (queue s) of
           [] \<Rightarrow> s\<lparr>queue := []\<rparr>
         | e # rest \<Rightarrow>
             started (the (toastRef s)) (message e) (toastType e)
               (orDefault (optAnimationDuration (options e)) (propAnimationDuration (props (the (toastRef s)))))
               (orDefault (optDuration (options e)) (propDuration (props (the (toastRef s)))))
               (s\<lparr>queue := rest, isAnimating := True, lastToastTime := now\<rparr>))
      else s)"
proof (induction "queue s" arbitrary: s)
  case Nil
  then show ?case by (simp add: processQueue.simps firstValid_def)
next
  case (Cons e q)
  have q: "queue s = e # q" using Cons.hyps(2) by simp
  show ?case
  proof (cases "\<not> isAnimating s \<and> toastRef s \<noteq> None")
    case False
    then show ?thesis by (auto simp: processQueue_idle)
  next
    case True
    show ?thesis
    proof (cases "blank (message e)")
      case b: True
      have "processQueue b now s = processQueue b now (s\<lparr>queue := q\<rparr>)"
        using True q b by (subst processQueue.simps) simp
      also have "\<dots> = (case firstValid q of
           [] \<Rightarrow> s\<lparr>queue := []\<rparr>
         | e # rest \<Rightarrow>
             started (the (toastRef s)) (message e) (toastType e)
               (orDefault (optAnimationDuration (options e)) (propAnimationDuration (props (the (toastRef s)))))
               (orDefault (optDuration (options e)) (propDuration (props (the (toastRef s)))))
               (s\<lparr>queue := rest, isAnimating := True, lastToastTime := now\<rparr>))"
        using Cons.hyps(1)[of "s\<lparr>queue := q\<rparr>"] True by (simp split: list.splits)
      finally show ?thesis using True q b by (simp add: firstValid_def)
    next
      case nb: False
      then show ?thesis using True q
        by (subst processQueue.simps) (simp add: firstValid_def ref_show_nonblank)
    qed
  qed
qed

lemma started_fields [simp]:
  "queue (started r m ty ad dd s) = queue s"
  "toastRef (started r m ty ad dd s) = toastRef s"
  "listeners (started r m ty ad dd s) = listeners s"
  "lastToastTime (started r m ty ad dd s) = lastToastTime s"
  "fired (started r m ty ad dd s) = fired s"
  "isAnimating (started r m ty ad dd s) = True"
  "isAnimating_ref (started r m ty ad dd s) = True"
  "displayed (started r m ty ad dd s) = displayed s @ [(m, ty, ad, dd)]"
  by (simp_all add: started_def)

lemma firstValid_suffix: "suffix (firstValid q) q"
  by (simp add: firstValid_def suffix_dropWhile)

lemma tl_firstValid_suffix: "suffix (tl (firstValid q)) q"
  by (meson firstValid_suffix suffix_order.trans suffix_tl)

lemma queue_processQueue:
  "queue (processQueue b now s) =
     (if \<not> isAnimating s \<and> toastRef s \<noteq> None then tl (firstValid (queue s)) else queue s)"
  by (subst processQueue_closed) (simp split: list.splits)

lemma processQueue_frame [simp]:
  "toastRef (processQueue b now s) = toastRef s"
  "listeners (processQueue b now s) = listeners s"
  "fired (processQueue b now s) = fired s"
  by (subst processQueue_closed, simp split: list.splits)+

lemma isAnimating_processQueue:
  "isAnimating (processQueue b now s) =
     (isAnimating s \<or> (toastRef s \<noteq> None \<and> firstValid (queue s) \<noteq> []))"
  by (subst processQueue_closed) (simp split: list.splits)

lemma displayed_processQueue:
  "displayed (processQueue b now s) =
     (if \<not> isAnimating s \<and> toastRef s \<noteq> None \<and> firstValid (queue s) \<noteq> []
      then displayed s @ [entry (the (toastRef s)) (hd (firstValid (queue s)))]
      else displayed s)"
  by (subst processQueue_closed) (simp add: entry_def split: list.splits)

lemma processQueue_listeners_update:
  "processQueue b now (s\<lparr>listeners := l\<rparr>) = (processQueue b now s)\<lparr>listeners := l\<rparr>"
  by (subst (1 2) processQueue_closed) (simp add: started_def split: list.splits option.splits)

lemma processQueue_idem: "processQueue b now (processQueue b now s) = processQueue b now s"
proof (cases "isAnimating (processQueue b now s)")
  case True
  then show ?thesis by (simp add: processQueue_idle)
next
  case False
  then have "processQueue b now s = s \<or> queue (processQueue b now s) = []"
    by (subst (asm) processQueue_closed, subst processQueue_closed, subst processQueue_closed)
       (auto split: list.splits if_splits)
  then show ?thesis by (auto simp: processQueue_idle)
qed

lemma blank_examples [simp]:
  "\<not> blank (str ''A'')" "\<not> blank (str ''B'')" "\<not> blank (str ''C'')" "\<not> blank (str ''D'')"
  "blank (str '''')" "blank (str ''  '')" "blank [0x00A0]" "blank [0xFEFF, 0x2003, 0x0009]"
  "\<not> blank [0x00A0, 0x0041, 0x0020]"
  by (simp_all add: blank_def trim_def isWhiteSpace_def str_def)

lemma str_Cons [simp]: "str (c # cs) \<noteq> []" "[] \<noteq> str (c # cs)"
  by (simp_all add: str_def)

lemmas eval_defs = initial_def noProps_def firstRender_def THROTTLE_DELAY_def MAX_QUEUE_SIZE_def
  CONTAINER_SIZE_def isValidToastRequest_def blank_iff[symmetric] orDefault_def optDuration_def
  optAnimationDuration_def propDuration_def propAnimationDuration_def started_def
  setTimeout_def clearTimeout_def cancelAnimation_def assignAnimation_def assignValue_def
  withTiming_def withDelay_def hideToast_def fireTimeout_def finishTransY_def settle_def
  completeHideAnimation_def resetConfig_def updateAnimationStatus.simps setAnimating.simps
  processQueue_closed firstValid_def ref_show_nonblank Let_def

section \<open>C9: the modular manager without a driver\<close>

text \<open>
  Claim C9. In the manager of \<^verbatim>\<open>managers/ToastManager.ts\<close>, a \<^verbatim>\<open>show\<close> call with a
  non-blank message that is neither throttled nor busy, made while no driver is
  registered, displays nothing and enqueues nothing, yet sets \<^verbatim>\<open>lastToastTime\<close> to the
  current time; so every \<^verbatim>\<open>show\<close> call less than 300 ms after it is rejected by the
  throttle check and leaves the state as it is.
\<close>

theorem modular_show_without_driver:
  assumes "\<not> blank m" and "\<not> now - lastToastTime s < THROTTLE_DELAY"
    and "\<not> isAnimating s" and "toastRef s = None"
  shows "mgr_show Modular m ty opts now s = s\<lparr>lastToastTime := now\<rparr>
     \<and> displayed (mgr_show Modular m ty opts now s) = displayed s
     \<and> queue (mgr_show Modular m ty opts now s) = queue s
     \<and> (\<forall>m' ty' opts' now'. now' - now < THROTTLE_DELAY \<longrightarrow>
           mgr_show Modular m' ty' opts' now' (mgr_show Modular m ty opts now s)
             = mgr_show Modular m ty opts now s)"
  using assms by simp

theorem modular_show_without_driver_witness:
  "mgr_show Modular (str ''A'') info None 1000 (initial noProps) = (initial noProps)\<lparr>lastToastTime := 1000\<rparr>
   \<and> displayed (mgr_show Modular (str ''A'') info None 1000 (initial noProps)) = []
   \<and> queue (mgr_show Modular (str ''A'') info None 1000 (initial noProps)) = []
   \<and> mgr_show Modular (str ''B'') success None 1299 (mgr_show Modular (str ''A'') info None 1000 (initial noProps))
       = mgr_show Modular (str ''A'') info None 1000 (initial noProps)"
proof -
  have h: "\<not> blank (str ''A'')" "\<not> 1000 - lastToastTime (initial noProps) < THROTTLE_DELAY"
    "\<not> isAnimating (initial noProps)" "toastRef (initial noProps) = None"
    by (simp_all add: initial_def THROTTLE_DELAY_def)
  have d: "displayed (initial noProps) = []" "queue (initial noProps) = []"
    by (simp_all add: initial_def)
  have t: "(1299::int) - 1000 < THROTTLE_DELAY" by (simp add: THROTTLE_DELAY_def)
  from modular_show_without_driver [OF h, of info None] t d show ?thesis by metis
qed

section \<open>C10: zero durations\<close>

text \<open>
  Claim C10. Options with \<^verbatim>\<open>duration\<close> equal to 0 or \<^verbatim>\<open>animationDuration\<close> equal to 0
  are treated as if the field were left out: the component combines the option with the
  default of the mount by \<^verbatim>\<open>||\<close>, so a zero falls back to the default (4000 ms and
  400 ms when the component is mounted without props). This holds at the component's
  \<^verbatim>\<open>show\<close>, for an entry taken from the queue, and for what a call of the hook puts on
  display.
\<close>

theorem zero_options_fall_back:
  "ref_show b r m ty (Some \<lparr>duration = Some 0, animationDuration = a\<rparr>) now s
     = ref_show b r m ty (Some \<lparr>duration = None, animationDuration = a\<rparr>) now s
   \<and> ref_show b r m ty (Some \<lparr>duration = d, animationDuration = Some 0\<rparr>) now s
     = ref_show b r m ty (Some \<lparr>duration = d, animationDuration = None\<rparr>) now s
   \<and> ref_show b r m ty (Some \<lparr>duration = Some 0, animationDuration = Some 0\<rparr>) now s
     = ref_show b r m ty None now s
   \<and> entry r \<lparr>message = m, toastType = ty,
                options = Some \<lparr>duration = Some 0, animationDuration = Some 0\<rparr>\<rparr>
     = entry r \<lparr>message = m, toastType = ty, options = None\<rparr>
   \<and> displayed (useToast_showToast b m ty
                   (Some \<lparr>duration = Some 0, animationDuration = Some 0\<rparr>) now s)
     = displayed (useToast_showToast b m ty None now s)
   \<and> (\<not> blank m \<and> props r = noProps \<longrightarrow>
        displayed (ref_show b r m ty (Some \<lparr>duration = Some 0, animationDuration = Some 0\<rparr>) now s)
          = displayed s @ [(m, ty, 400, 4000)]
        \<and> cfg_duration (configState
             (ref_show b r m ty (Some \<lparr>duration = Some 0, animationDuration = Some 0\<rparr>) now s)) = 4000
        \<and> cfg_animationDuration (configState
             (ref_show b r m ty (Some \<lparr>duration = Some 0, animationDuration = Some 0\<rparr>) now s)) = 400)"
proof -
  have hook: "displayed (useToast_showToast b m ty
                   (Some \<lparr>duration = Some 0, animationDuration = Some 0\<rparr>) now s)
     = displayed (useToast_showToast b m ty None now s)"
    by (cases b)
       (simp_all add: useToast_showToast_def onReady_def ref_show.simps orDefault_def
          optDuration_def optAnimationDuration_def Let_def split: option.splits)
  show ?thesis
    by (simp add: hook)
       (simp add: ref_show.simps orDefault_def optDuration_def optAnimationDuration_def entry_def
          showToast_nonblank started_def propDuration_def propAnimationDuration_def noProps_def)
qed

theorem zero_options_fall_back_witness:
  "displayed (ref_show Modular firstRender (str ''A'') info
      (Some \<lparr>duration = Some 0, animationDuration = Some 0\<rparr>) 1000 (initial noProps))
     = [((str ''A''), info, 400, 4000)]"
proof -
  have h: "\<not> blank (str ''A'') \<and> props firstRender = noProps" by (simp add: firstRender_def)
  have d: "displayed (initial noProps) = []" by (simp add: initial_def)
  from zero_options_fall_back [of Modular firstRender "(str ''A'')" info _ 1000 "initial noProps"] h
  have "displayed (ref_show Modular firstRender (str ''A'') info
      (Some \<lparr>duration = Some 0, animationDuration = Some 0\<rparr>) 1000 (initial noProps))
     = displayed (initial noProps) @ [((str ''A''), info, 400, 4000)]"
    by blast
  then show ?thesis by (simp add: d)
qed

section \<open>C6: blank messages\<close>

text \<open>
  Claim C6 says that a request with an empty or whitespace-only message changes nothing
  at any entry point. The component's \<^verbatim>\<open>show\<close> does change the state: on a blank
  message it calls \<^verbatim>\<open>updateAnimationStatus(false)\<close>, which clears the busy flag of the
  manager while a toast is on display.
\<close>

theorem blank_show_clears_busy_counterexample:
  "blank (str ''  '') \<and> isAnimating (showingA Modular)
   \<and> \<not> isAnimating (ref_show Modular firstRender (str ''  '') info None 2000 (showingA Modular))"
  by (simp add: showingA_def mounted_def initial_def THROTTLE_DELAY_def ref_show.simps
      updateAnimationStatus.simps setAnimating.simps showToast_nonblank started_def)

text \<open>
  Claim C6 as amended. A blank message changes nothing at the hook and at the manager's
  \<^verbatim>\<open>show\<close>, in both managers: nothing is admitted or enqueued, and the busy flag, the
  time of the last toast, the queue and the driver reference stay as they are. At the
  component's \<^verbatim>\<open>show\<close> and \<^verbatim>\<open>showToast\<close> it puts nothing on display but resets the
  busy flags of the component and of the manager to false; in \<^verbatim>\<open>src/Toast.tsx\<close> that
  \<^verbatim>\<open>setAnimating(false)\<close> goes on to a drain of the queue.
\<close>

theorem blank_message_effect:
  assumes "blank m"
  shows "useToast_showToast b m ty opts now s = s
     \<and> mgr_show b m ty opts now s = s
     \<and> ref_show Modular r m ty opts now s = s\<lparr>isAnimating_ref := False, isAnimating := False\<rparr>
     \<and> showToast Modular r m ty ad dd now s = s\<lparr>isAnimating_ref := False, isAnimating := False\<rparr>
     \<and> ref_show Monolith r m ty opts now s
          = processQueue Monolith now (s\<lparr>isAnimating_ref := False, isAnimating := False\<rparr>)
     \<and> showToast Monolith r m ty ad dd now s
          = processQueue Monolith now (s\<lparr>isAnimating_ref := False, isAnimating := False\<rparr>)"
proof -
  have "mgr_show b m ty opts now s = s"
    using assms by (cases b) (simp_all add: isValidToastRequest_def blank_iff)
  then show ?thesis
    using assms
    by (simp add: useToast_showToast_def ref_show.simps showToast.simps
        updateAnimationStatus.simps setAnimating.simps)
qed

theorem blank_message_effect_witness:
  "mgr_show Modular (str ''  '') info None 2000 (showingA Modular) = showingA Modular
   \<and> ref_show Modular firstRender (str ''  '') info None 2000 (showingA Modular)
       = (showingA Modular)\<lparr>isAnimating_ref := False, isAnimating := False\<rparr>
   \<and> blank [0x00A0, 0xFEFF]
   \<and> useToast_showToast Monolith [0x00A0, 0xFEFF] info None 2000 (showingA Monolith)
       = showingA Monolith
   \<and> mgr_show Monolith [0x00A0, 0xFEFF] info None 2000 (showingA Monolith) = showingA Monolith
   \<and> showToast Modular firstRender [0x00A0, 0xFEFF] info 400 4000 2000 (showingA Modular)
       = (showingA Modular)\<lparr>isAnimating_ref := False, isAnimating := False\<rparr>"
proof -
  have 1: "blank (str ''  '')" by simp
  have 2: "blank [0x00A0, 0xFEFF]" by (simp add: blank_def trim_def isWhiteSpace_def)
  from blank_message_effect [OF 1, of Modular info None 2000 "showingA Modular" firstRender]
    blank_message_effect [OF 2, of Monolith info None 2000 "showingA Monolith"]
    blank_message_effect [OF 2, of Modular info None 2000 "showingA Modular" firstRender 400 4000]
    2
  show ?thesis by blast
qed

section \<open>C1: requests that arrive while busy or throttled\<close>





lemma mounted_Monolith:
  "mounted Monolith = (initial noProps)\<lparr>toastRef := Some firstRender\<rparr>"
  by (simp add: mounted_def processQueue_idle initial_def)

lemma mounted_Modular:
  "mounted Modular = (initial noProps)\<lparr>toastRef := Some firstRender\<rparr>"
  by (simp add: mounted_def)

lemma showingA_eq:
  "showingA b = started firstRender (str ''A'') info 400 4000
     ((initial noProps)\<lparr>toastRef := Some firstRender, isAnimating := True, lastToastTime := 1000\<rparr>)"
  by (cases b)
     (simp_all add: showingA_def mounted_Monolith mounted_Modular initial_def THROTTLE_DELAY_def
        isValidToastRequest_def blank_iff[symmetric] ref_show_nonblank orDefault_def
        optDuration_def optAnimationDuration_def propDuration_def propAnimationDuration_def
        firstRender_def noProps_def)



lemma run_burst:
  "run Monolith burst (mounted Monolith)
     = (showingA Monolith)\<lparr>queue := [\<lparr>message = (str ''B''), toastType = info, options = None\<rparr>,
                                    \<lparr>message = (str ''C''), toastType = info, options = None\<rparr>]\<rparr>"
proof -
  let ?B = "\<lparr>message = (str ''B''), toastType = info, options = None\<rparr>"
  let ?C = "\<lparr>message = (str ''C''), toastType = info, options = None\<rparr>"
  have sB: "mgr_show Monolith (str ''B'') info None 1010 (showingA Monolith)
              = (showingA Monolith)\<lparr>queue := [?B]\<rparr>"
    by (simp add: showingA_eq initial_def THROTTLE_DELAY_def MAX_QUEUE_SIZE_def
        isValidToastRequest_def blank_iff[symmetric])
  have sC: "mgr_show Monolith (str ''C'') info None 1020 ((showingA Monolith)\<lparr>queue := [?B]\<rparr>)
              = (showingA Monolith)\<lparr>queue := [?B, ?C]\<rparr>"
    by (simp add: showingA_eq initial_def THROTTLE_DELAY_def MAX_QUEUE_SIZE_def
        isValidToastRequest_def blank_iff[symmetric])
  have sD: "mgr_show Monolith (str ''D'') info None 1030 ((showingA Monolith)\<lparr>queue := [?B, ?C]\<rparr>)
              = (showingA Monolith)\<lparr>queue := [?B, ?C]\<rparr>"
    by (simp add: showingA_eq initial_def THROTTLE_DELAY_def MAX_QUEUE_SIZE_def
        isValidToastRequest_def blank_iff[symmetric])
  have run: "run Monolith burst (mounted Monolith) = (showingA Monolith)\<lparr>queue := [?B, ?C]\<rparr>"
    unfolding burst_def run.simps step.simps fst_conv snd_conv showingA_def [symmetric] sB sC sD ..
  show ?thesis by (rule run)
qed


section \<open>C2: registering and unregistering the driver\<close>

lemma fold_callListener:
  "fold (\<lambda>l. callListener b l now) ls s = (if ls = [] then s else processQueue b now s)"
proof (induction ls arbitrary: s)
  case Nil
  then show ?case by simp
next
  case (Cons l ls)
  then show ?case
    by (cases l) (simp add: callListener_def processQueue_idem)
qed

lemma setToastRef_Monolith_Some:
  "setToastRef Monolith (Some r) now s
     = (processQueue Monolith now (s\<lparr>toastRef := Some r\<rparr>))\<lparr>listeners := []\<rparr>"
  by (simp add: fold_callListener Let_def processQueue_listeners_update processQueue_idem)

lemma setToastRef_Monolith_None: "setToastRef Monolith None now s = s"
  by simp

lemma processQueue_head:
  assumes "\<not> isAnimating s" and "toastRef s = Some r" and "queue s = e # q"
    and "\<not> blank (message e)"
  shows "processQueue b now s =
           started r (message e) (toastType e)
             (orDefault (optAnimationDuration (options e)) (propAnimationDuration (props r)))
             (orDefault (optDuration (options e)) (propDuration (props r)))
             (s\<lparr>queue := q, isAnimating := True, lastToastTime := now\<rparr>)"
  using assms by (subst processQueue_closed) (simp add: firstValid_def)

text \<open>
  Claim C2 says that after \<^verbatim>\<open>setToastRef(null)\<close> later requests are enqueued instead of
  displayed. In \<^verbatim>\<open>managers/ToastManager.ts\<close> a request made after the driver was
  unregistered is neither displayed nor enqueued.
\<close>

theorem unregistered_request_counterexample:
  "toastRef (setToastRef Modular None 500 (mounted Modular)) = None
   \<and> \<not> blank (str ''A'')
   \<and> queue (mgr_show Modular (str ''A'') info None 1000 (setToastRef Modular None 500 (mounted Modular)))
        \<noteq> queue (setToastRef Modular None 500 (mounted Modular))
              @ [\<lparr>message = (str ''A''), toastType = info, options = None\<rparr>]"
  by (simp add: mounted_Modular initial_def THROTTLE_DELAY_def)

text \<open>
  Claim C2 as amended. In \<^verbatim>\<open>src/Toast.tsx\<close>, \<^verbatim>\<open>setToastRef\<close> with a driver stores it,
  calls every registered waiter, clears the waiters and attempts a drain of the queue;
  all of that amounts to one drain with the waiters cleared, so with the manager idle and
  a non-blank entry at the head of the queue, that entry is displayed and the rest stays
  queued. In \<^verbatim>\<open>managers/ToastManager.ts\<close>, \<^verbatim>\<open>setToastRef\<close> only stores its argument:
  with \<^verbatim>\<open>null\<close> the driver reference becomes null and the queue is not touched, and a
  later non-blank request that is neither throttled nor busy is neither displayed nor
  enqueued (only \<^verbatim>\<open>lastToastTime\<close> changes). In \<^verbatim>\<open>src/Toast.tsx\<close>, a non-blank
  request made while the driver reference is null is enqueued (subject to capacity) and
  not displayed.
\<close>

theorem register_and_unregister:
  "setToastRef Monolith (Some r) now s
     = (processQueue Monolith now (s\<lparr>toastRef := Some r\<rparr>))\<lparr>listeners := []\<rparr>
   \<and> listeners (setToastRef Monolith (Some r) now s) = []
   \<and> toastRef (setToastRef Monolith (Some r) now s) = Some r
   \<and> (\<not> isAnimating s \<and> queue s = e # q \<and> \<not> blank (message e) \<longrightarrow>
        displayed (setToastRef Monolith (Some r) now s) = displayed s @ [entry r e]
        \<and> queue (setToastRef Monolith (Some r) now s) = q
        \<and> isAnimating (setToastRef Monolith (Some r) now s))
   \<and> setToastRef Modular ref now s = s\<lparr>toastRef := ref\<rparr>
   \<and> toastRef (setToastRef Modular None now s) = None
   \<and> queue (setToastRef Modular None now s) = queue s
   \<and> (\<not> blank m \<and> \<not> now' - lastToastTime s < THROTTLE_DELAY \<and> \<not> isAnimating s \<longrightarrow>
        mgr_show Modular m ty opts now' (setToastRef Modular None now s)
          = s\<lparr>toastRef := None, lastToastTime := now'\<rparr>)
   \<and> (\<not> blank m \<and> toastRef s = None \<longrightarrow>
        displayed (mgr_show Monolith m ty opts now' s) = displayed s
        \<and> queue (mgr_show Monolith m ty opts now' s) =
            (if length (queue s) < MAX_QUEUE_SIZE
             then queue s @ [\<lparr>message = m, toastType = ty, options = opts\<rparr>] else queue s))"
proof -
  have a: "setToastRef Monolith (Some r) now s
     = (processQueue Monolith now (s\<lparr>toastRef := Some r\<rparr>))\<lparr>listeners := []\<rparr>"
    by (rule setToastRef_Monolith_Some)
  have b: "displayed (setToastRef Monolith (Some r) now s) = displayed s @ [entry r e]
        \<and> queue (setToastRef Monolith (Some r) now s) = q
        \<and> isAnimating (setToastRef Monolith (Some r) now s)"
    if "\<not> isAnimating s \<and> queue s = e # q \<and> \<not> blank (message e)"
    using that unfolding a
    by (simp add: processQueue_head [where r = r and e = e and q = q] entry_def)
  have c: "displayed (mgr_show Monolith m ty opts now' s) = displayed s
        \<and> queue (mgr_show Monolith m ty opts now' s) =
            (if length (queue s) < MAX_QUEUE_SIZE
             then queue s @ [\<lparr>message = m, toastType = ty, options = opts\<rparr>] else queue s)"
    if "\<not> blank m \<and> toastRef s = None"
    using that by (simp add: isValidToastRequest_def blank_iff onReady_def Let_def)
  have d: "setToastRef Modular ref now s = s\<lparr>toastRef := ref\<rparr>
   \<and> toastRef (setToastRef Modular None now s) = None
   \<and> queue (setToastRef Modular None now s) = queue s
   \<and> (\<not> blank m \<and> \<not> now' - lastToastTime s < THROTTLE_DELAY \<and> \<not> isAnimating s \<longrightarrow>
        mgr_show Modular m ty opts now' (setToastRef Modular None now s)
          = s\<lparr>toastRef := None, lastToastTime := now'\<rparr>)"
    by simp
  have l: "listeners (setToastRef Monolith (Some r) now s) = []
     \<and> toastRef (setToastRef Monolith (Some r) now s) = Some r"
    unfolding a by simp
  show ?thesis using a b c d l by blast
qed

theorem register_and_unregister_witness:
  "map message (queue (run Monolith early (initial noProps))) = [(str ''A''), (str ''B'')]
   \<and> displayed (setToastRef Monolith (Some firstRender) 2000 (run Monolith early (initial noProps)))
        = [((str ''A''), info, 400, 4000)]
   \<and> map message (queue (setToastRef Monolith (Some firstRender) 2000
                            (run Monolith early (initial noProps)))) = [(str ''B'')]
   \<and> listeners (setToastRef Monolith (Some firstRender) 2000 (run Monolith early (initial noProps))) = []
   \<and> mgr_show Modular (str ''A'') info None 1000 (setToastRef Modular None 500 (mounted Modular))
        = (mounted Modular)\<lparr>toastRef := None, lastToastTime := 1000\<rparr>"
proof -
  let ?A = "\<lparr>message = (str ''A''), toastType = info, options = None\<rparr>"
  let ?B = "\<lparr>message = (str ''B''), toastType = info, options = None\<rparr>"
  let ?s = "run Monolith early (initial noProps)"
  have s: "?s = (initial noProps)\<lparr>queue := [?A, ?B],
                   listeners := [ProcessQueueListener, ProcessQueueListener]\<rparr>"
    by (simp add: early_def initial_def THROTTLE_DELAY_def MAX_QUEUE_SIZE_def
        isValidToastRequest_def blank_iff[symmetric] onReady_def)
  have h1: "\<not> isAnimating ?s \<and> queue ?s = ?A # [?B] \<and> \<not> blank (message ?A)"
    unfolding s by (simp add: initial_def)
  have h2: "\<not> blank (str ''A'') \<and> \<not> 1000 - lastToastTime (mounted Modular) < THROTTLE_DELAY
            \<and> \<not> isAnimating (mounted Modular)"
    by (simp add: mounted_Modular initial_def THROTTLE_DELAY_def)
  have d0: "displayed ?s = []" unfolding s by (simp add: initial_def)
  have e: "entry firstRender ?A = ((str ''A''), info, 400, 4000)"
    by (simp add: entry_def firstRender_def noProps_def orDefault_def optDuration_def
        optAnimationDuration_def propDuration_def propAnimationDuration_def)
  from register_and_unregister [of firstRender 2000 ?s ?A "[?B]" _ "(str ''A'')" 1000 _ _] h1
  have x: "displayed (setToastRef Monolith (Some firstRender) 2000 ?s)
             = displayed ?s @ [entry firstRender ?A]
     \<and> queue (setToastRef Monolith (Some firstRender) 2000 ?s) = [?B]
     \<and> listeners (setToastRef Monolith (Some firstRender) 2000 ?s) = []"
    by blast
  have "displayed (setToastRef Monolith (Some firstRender) 2000 ?s) = [((str ''A''), info, 400, 4000)]
     \<and> map message (queue (setToastRef Monolith (Some firstRender) 2000 ?s)) = [(str ''B'')]
     \<and> listeners (setToastRef Monolith (Some firstRender) 2000 ?s) = []"
    by (simp only: x d0 e append_Nil list.map request.simps simp_thms)
  moreover from register_and_unregister [of firstRender 500 "mounted Modular" _ _ _ "(str ''A'')" 1000 info None] h2
  have "mgr_show Modular (str ''A'') info None 1000 (setToastRef Modular None 500 (mounted Modular))
        = (mounted Modular)\<lparr>toastRef := None, lastToastTime := 1000\<rparr>"
    by blast
  moreover have "map message (queue ?s) = [(str ''A''), (str ''B'')]" unfolding s by simp
  ultimately show ?thesis by blast
qed

section \<open>What each operation does to the queue\<close>

lemma processQueue_suffix: "suffix (queue (processQueue b now s)) (queue s)"
  by (simp add: queue_processQueue tl_firstValid_suffix)

lemma setAnimating_suffix: "suffix (queue (setAnimating b a now s)) (queue s)"
  using processQueue_suffix [of b now "s\<lparr>isAnimating := False\<rparr>"]
  by (cases b; cases a) (simp_all add: setAnimating.simps)

lemma updateAnimationStatus_suffix: "suffix (queue (updateAnimationStatus b a now s)) (queue s)"
  using setAnimating_suffix [of b a now "s\<lparr>isAnimating_ref := a\<rparr>"]
  by (simp add: updateAnimationStatus.simps)

lemma showToast_suffix: "suffix (queue (showToast b r m ty ad dd now s)) (queue s)"
proof (cases "blank m")
  case True
  then show ?thesis by (simp add: showToast.simps updateAnimationStatus_suffix)
next
  case False
  then show ?thesis by (simp add: showToast_nonblank)
qed

lemma ref_show_suffix: "suffix (queue (ref_show b r m ty opts now s)) (queue s)"
proof (cases "blank m")
  case True
  then show ?thesis by (simp add: ref_show.simps updateAnimationStatus_suffix)
next
  case False
  then show ?thesis by (simp add: ref_show_nonblank)
qed

lemma invoke_suffix: "suffix (queue (invoke b c now s)) (queue s)"
proof (cases c)
  case (UserCallback n)
  then show ?thesis by (simp add: invoke_def)
next
  case (ManagerHideCallback u)
  then show ?thesis
    using processQueue_suffix [of b now "s\<lparr>isAnimating := False\<rparr>"]
      processQueue_suffix [of b now "s\<lparr>isAnimating := False, fired := fired s @ [the u]\<rparr>"]
    by (cases u) (simp_all add: invoke_def)
qed

lemma hideToast_suffix: "suffix (queue (hideToast b r cb now s)) (queue s)"
  by (cases cb) (simp_all add: hideToast_def invoke_suffix Let_def clearTimeout_def split: option.splits)

lemma completeHideAnimation_suffix: "suffix (queue (completeHideAnimation b cb now s)) (queue s)"
proof -
  let ?s2 = "resetConfig (updateAnimationStatus b False now s)"
  have 1: "suffix (queue ?s2) (queue s)"
    using updateAnimationStatus_suffix [of b False now s] by (simp add: resetConfig_def)
  have "suffix (queue (completeHideAnimation b cb now s)) (queue ?s2)"
    by (cases cb) (simp_all add: completeHideAnimation_def invoke_suffix)
  then show ?thesis using 1 by (rule suffix_order.trans)
qed

lemma setToastRef_suffix: "suffix (queue (setToastRef b ref now s)) (queue s)"
proof (cases b)
  case Monolith
  show ?thesis
  proof (cases ref)
    case None
    with Monolith show ?thesis by simp
  next
    case (Some r)
    show ?thesis
      unfolding Monolith Some setToastRef_Monolith_Some
      using processQueue_suffix [of Monolith now "s\<lparr>toastRef := Some r\<rparr>"] by simp
  qed
next
  case Modular
  then show ?thesis by simp
qed

lemma mgr_show_Modular_suffix: "suffix (queue (mgr_show Modular m ty opts now s)) (queue s)"
  by (simp add: ref_show_nonblank Let_def split: option.splits)

lemma mgr_show_Monolith_queue:
  "queue (mgr_show Monolith m ty opts now s) = queue s
   \<or> length (queue s) < MAX_QUEUE_SIZE \<and> \<not> blank m
     \<and> queue (mgr_show Monolith m ty opts now s)
          = queue s @ [\<lparr>message = m, toastType = ty, options = opts\<rparr>]"
  by (simp add: isValidToastRequest_def blank_iff[symmetric] onReady_def Let_def ref_show_nonblank)

lemma mgr_hide_suffix: "suffix (queue (mgr_hide b cb now s)) (queue s)"
  by (simp add: mgr_hide_def hideToast_suffix split: option.splits)

lemma runTask_suffix: "suffix (queue (runTask b t now s)) (queue s)"
  by (cases t) (simp_all add: hideToast_suffix setTimeout_def Let_def)

lemma fireTimeout_suffix: "suffix (queue (fireTimeout b i now s)) (queue s)"
proof (cases "map_of (timeouts s) i")
  case None
  then show ?thesis by (simp add: fireTimeout_def)
next
  case (Some t)
  then show ?thesis
    using runTask_suffix [of b t now "s\<lparr>timeouts := filter (\<lambda>p. fst p \<noteq> i) (timeouts s)\<rparr>"]
    by (simp add: fireTimeout_def)
qed

lemma finishTransY_suffix: "suffix (queue (finishTransY b now s)) (queue s)"
proof (cases "sv_running (transY s)")
  case None
  then show ?thesis by (simp add: finishTransY_def)
next
  case (Some a)
  show ?thesis
  proof (cases "onFinish a")
    case None
    with Some show ?thesis by (simp add: finishTransY_def)
  next
    case c: (Some c)
    obtain cb where "c = CompleteHide cb" by (cases c)
    with Some c show ?thesis
      using completeHideAnimation_suffix [of b cb now "s\<lparr>transY := settle (transY s)\<rparr>"]
      by (simp add: finishTransY_def)
  qed
qed

lemma step_queue:
  "suffix (queue (step b ev now s)) (queue s)
   \<or> b = Monolith \<and> length (queue s) < MAX_QUEUE_SIZE
     \<and> (\<exists>e. \<not> blank (message e) \<and> queue (step b ev now s) = queue s @ [e])"
proof -
  have show_any: "suffix (queue (mgr_show b m ty opts now s)) (queue s)
   \<or> b = Monolith \<and> length (queue s) < MAX_QUEUE_SIZE
     \<and> (\<exists>e. \<not> blank (message e) \<and> queue (mgr_show b m ty opts now s) = queue s @ [e])"
    for m ty opts
  proof (cases b)
    case Monolith
    from mgr_show_Monolith_queue [of m ty opts now s] show ?thesis
      unfolding Monolith
      by (metis request.select_convs(1) suffix_order.refl)
  next
    case Modular
    then show ?thesis using mgr_show_Modular_suffix by simp
  qed
  show ?thesis
  proof (cases ev)
    case (ManagerShow m ty opts)
    then show ?thesis using show_any [of m ty opts] by simp
  next
    case (HookShow m ty opts)
    then show ?thesis using show_any [of m ty opts] by (simp add: useToast_showToast_def)
  qed (simp_all add: mgr_hide_suffix setToastRef_suffix setAnimating_suffix useToast_hideToast_def
        ref_show_suffix hideToast_suffix fireTimeout_suffix finishTransY_suffix
        finishToastWidth_def finishTextOpacity_def textWidthEffect_def Let_def)
qed

lemma queue_ok_suffix: "queue_ok s \<Longrightarrow> suffix (queue s') (queue s) \<Longrightarrow> queue_ok s'"
  by (auto simp: queue_ok_def suffix_def list_all_iff)

lemma step_queue_ok: "queue_ok s \<Longrightarrow> queue_ok (step b ev now s)"
  using step_queue [of b ev now s]
  by (auto simp: queue_ok_suffix) (auto simp: queue_ok_def)

lemma run_queue_ok: "queue_ok s \<Longrightarrow> queue_ok (run b evs s)"
  by (induction evs arbitrary: s) (simp_all add: step_queue_ok)

lemma run_Modular_queue: "queue s = [] \<Longrightarrow> queue (run Modular evs s) = []"
proof (induction evs arbitrary: s)
  case Nil
  then show ?case by simp
next
  case (Cons e evs)
  have "queue (step Modular (fst e) (snd e) s) = []"
    using step_queue [of Modular "fst e" "snd e" s] Cons.prems by simp
  then show ?case using Cons.IH by simp
qed

section \<open>C5: the queue invariant\<close>

text \<open>
  Claim C5. In every state that the manager and the component can reach, the queue holds
  at most 2 entries and no entry whose message is blank; \<^verbatim>\<open>show\<close>, \<^verbatim>\<open>setToastRef\<close>,
  \<^verbatim>\<open>setAnimating\<close> and \<^verbatim>\<open>hide\<close>, the hook, and every other event of the system keep
  it so. This holds for both managers.
\<close>

theorem queue_invariant:
  "queue_ok (initial p)
   \<and> queue_ok (run b evs (initial p))
   \<and> (queue_ok s \<longrightarrow>
        queue_ok (mgr_show b m ty opts now s)
        \<and> queue_ok (setToastRef b ref now s)
        \<and> queue_ok (setAnimating b a now s)
        \<and> queue_ok (mgr_hide b cb now s)
        \<and> queue_ok (useToast_showToast b m ty opts now s)
        \<and> queue_ok (useToast_hideToast b cb now s)
        \<and> queue_ok (step b ev now s))"
proof -
  have i: "queue_ok (initial p)" by (simp add: queue_ok_def initial_def)
  have r: "queue_ok (run b evs (initial p))" using i by (rule run_queue_ok)
  have "queue_ok (mgr_show b m ty opts now s)
        \<and> queue_ok (setToastRef b ref now s)
        \<and> queue_ok (setAnimating b a now s)
        \<and> queue_ok (mgr_hide b cb now s)
        \<and> queue_ok (useToast_showToast b m ty opts now s)
        \<and> queue_ok (useToast_hideToast b cb now s)
        \<and> queue_ok (step b ev now s)" if ok: "queue_ok s"
    using step_queue_ok [OF ok, of b "ManagerShow m ty opts" now]
      step_queue_ok [OF ok, of b "SetToastRef ref" now]
      step_queue_ok [OF ok, of b "SetAnimating a" now]
      step_queue_ok [OF ok, of b "ManagerHide cb" now]
      step_queue_ok [OF ok, of b "HookShow m ty opts" now]
      step_queue_ok [OF ok, of b "HookHide cb" now]
      step_queue_ok [OF ok, of b ev now]
    by (simp only: step.simps simp_thms)
  with i r show ?thesis by blast
qed

theorem queue_invariant_witness:
  "queue_ok (run Monolith burst (mounted Monolith))
   \<and> length (queue (run Monolith burst (mounted Monolith))) = 2
   \<and> queue_ok (mgr_show Monolith (str ''D'') info None 5000 (run Monolith burst (mounted Monolith)))
   \<and> queue_ok (setAnimating Monolith False 5000 (run Monolith burst (mounted Monolith)))
   \<and> map message (queue (mgr_show Monolith (str ''B'') info None 1100 (showingA Monolith)))
       = [str ''B'']
   \<and> queue_ok (mgr_show Monolith [0x00A0] info None 1100 (showingA Monolith))
   \<and> queue (mgr_show Monolith [0x00A0] info None 1100 (showingA Monolith)) = []"
proof -
  have ok: "queue_ok (run Monolith burst (mounted Monolith))"
    by (simp add: run_burst queue_ok_def MAX_QUEUE_SIZE_def)
  have len: "length (queue (run Monolith burst (mounted Monolith))) = 2"
    by (simp add: run_burst)
  have ok': "queue_ok (showingA Monolith)"
    by (simp add: showingA_eq queue_ok_def initial_def)
  have q: "map message (queue (mgr_show Monolith (str ''B'') info None 1100 (showingA Monolith)))
       = [str ''B'']
   \<and> queue (mgr_show Monolith [0x00A0] info None 1100 (showingA Monolith)) = []"
    by (simp add: showingA_eq isValidToastRequest_def blank_iff[symmetric] Let_def
        MAX_QUEUE_SIZE_def onReady_def initial_def)
  from queue_invariant [of noProps Monolith "[]" "run Monolith burst (mounted Monolith)"
      "(str ''D'')" info None 5000 None False None FinishTransY]
    queue_invariant [of noProps Monolith "[]" "showingA Monolith"
      "[0x00A0]" info None 1100 None False None FinishTransY] ok len ok' q
  show ?thesis by blast
qed

section \<open>C4: the drain is first in, first out\<close>

lemma firstValid_Nil: "firstValid q = [] \<Longrightarrow> filter (\<lambda>e. \<not> blank (message e)) q = []"
  by (induction q) (auto simp: firstValid_def split: if_splits)

lemma firstValid_Cons:
  "firstValid q = e # rest \<Longrightarrow>
     filter (\<lambda>e. \<not> blank (message e)) q = e # filter (\<lambda>e. \<not> blank (message e)) rest"
  by (induction q) (auto simp: firstValid_def split: if_splits)

lemma invoke_release:
  "invoke b (ManagerHideCallback None) now s = processQueue b now (s\<lparr>isAnimating := False\<rparr>)"
  by (simp add: invoke_def)

lemma release_step:
  assumes "toastRef s = Some r"
  shows "displayed (invoke b (ManagerHideCallback None) now s)
           = displayed s @ map (entry r) (take 1 (filter (\<lambda>e. \<not> blank (message e)) (queue s)))"
    and "filter (\<lambda>e. \<not> blank (message e)) (queue (invoke b (ManagerHideCallback None) now s))
           = tl (filter (\<lambda>e. \<not> blank (message e)) (queue s))"
    and "toastRef (invoke b (ManagerHideCallback None) now s) = Some r"
proof -
  show "toastRef (invoke b (ManagerHideCallback None) now s) = Some r"
    using assms by (simp add: invoke_release)
  show "displayed (invoke b (ManagerHideCallback None) now s)
           = displayed s @ map (entry r) (take 1 (filter (\<lambda>e. \<not> blank (message e)) (queue s)))"
  proof (cases "firstValid (queue s)")
    case Nil
    then show ?thesis
      using assms firstValid_Nil [OF Nil] by (simp add: invoke_release displayed_processQueue)
  next
    case (Cons e rest)
    then show ?thesis
      using assms firstValid_Cons [OF Cons] by (simp add: invoke_release displayed_processQueue)
  qed
  show "filter (\<lambda>e. \<not> blank (message e)) (queue (invoke b (ManagerHideCallback None) now s))
           = tl (filter (\<lambda>e. \<not> blank (message e)) (queue s))"
  proof (cases "firstValid (queue s)")
    case Nil
    then show ?thesis
      using assms firstValid_Nil [OF Nil] by (simp add: invoke_release queue_processQueue)
  next
    case (Cons e rest)
    then show ?thesis
      using assms firstValid_Cons [OF Cons] by (simp add: invoke_release queue_processQueue)
  qed
qed

lemma releases_displayed:
  assumes "toastRef s = Some r"
  shows "displayed (fold (\<lambda>t. invoke b (ManagerHideCallback None) t) ts s)
           = displayed s @ map (entry r)
               (take (length ts) (filter (\<lambda>e. \<not> blank (message e)) (queue s)))"
  using assms
proof (induction ts arbitrary: s)
  case Nil
  then show ?case by simp
next
  case (Cons t ts)
  let ?s1 = "invoke b (ManagerHideCallback None) t s"
  let ?F = "filter (\<lambda>e. \<not> blank (message e)) (queue s)"
  note st = release_step [OF Cons.prems, of b t]
  have "displayed (fold (\<lambda>t. invoke b (ManagerHideCallback None) t) (t # ts) s)
          = displayed ?s1 @ map (entry r) (take (length ts) (tl ?F))"
    using Cons.IH [OF st(3)] st(2) by simp
  also have "\<dots> = displayed s @ map (entry r) (take 1 ?F @ take (length ts) (tl ?F))"
    using st(1) by simp
  also have "take 1 ?F @ take (length ts) (tl ?F) = take (length (t # ts)) ?F"
    by (cases ?F) simp_all
  finally show ?case .
qed

text \<open>
  Claim C4. \<^verbatim>\<open>processQueue\<close> does nothing unless the manager is idle, a driver is
  registered and the queue is not empty. Otherwise it removes the oldest entry; if that
  entry's message is blank it goes on with the rest of the queue; if not, it sets the
  busy flag, sets \<^verbatim>\<open>lastToastTime\<close> to the current time and calls the driver's
  \<^verbatim>\<open>show\<close> with that entry. So the toasts displayed by a series of releases of the busy
  flag, each followed by a drain (what the closure that \<^verbatim>\<open>hide\<close> hands to the driver
  does), are the non-blank entries of the queue in queue order, one per release: of two
  queued requests, the earlier one is displayed first.
\<close>

theorem drain_is_fifo:
  "(isAnimating s \<or> toastRef s = None \<or> queue s = [] \<longrightarrow> processQueue b now s = s)
   \<and> (\<not> isAnimating s \<and> toastRef s = Some r \<and> queue s = e # q \<longrightarrow>
        (blank (message e) \<longrightarrow> processQueue b now s = processQueue b now (s\<lparr>queue := q\<rparr>))
        \<and> (\<not> blank (message e) \<longrightarrow>
             isAnimating (processQueue b now s)
             \<and> lastToastTime (processQueue b now s) = now
             \<and> queue (processQueue b now s) = q
             \<and> displayed (processQueue b now s) = displayed s @ [entry r e]))
   \<and> (toastRef s = Some r \<longrightarrow>
        displayed (fold (\<lambda>t. invoke b (ManagerHideCallback None) t) ts s)
          = displayed s @ map (entry r)
              (take (length ts) (filter (\<lambda>e. \<not> blank (message e)) (queue s))))"
proof -
  have idle: "isAnimating s \<or> toastRef s = None \<or> queue s = [] \<longrightarrow> processQueue b now s = s"
    using processQueue_idle by blast
  have skip: "processQueue b now s = processQueue b now (s\<lparr>queue := q\<rparr>)"
    if "\<not> isAnimating s \<and> toastRef s = Some r \<and> queue s = e # q" "blank (message e)"
    using that by (subst processQueue.simps) simp
  have take: "isAnimating (processQueue b now s)
             \<and> lastToastTime (processQueue b now s) = now
             \<and> queue (processQueue b now s) = q
             \<and> displayed (processQueue b now s) = displayed s @ [entry r e]"
    if "\<not> isAnimating s \<and> toastRef s = Some r \<and> queue s = e # q" "\<not> blank (message e)"
    using that by (simp add: processQueue_head [where r = r and e = e and q = q] entry_def)
  show ?thesis using idle skip take releases_displayed by blast
qed

theorem drain_is_fifo_witness:
  "displayed (processQueue Monolith 5000 ((run Monolith burst (mounted Monolith))\<lparr>isAnimating := False\<rparr>))
      = [((str ''A''), info, 400, 4000), ((str ''B''), info, 400, 4000)]
   \<and> displayed (fold (\<lambda>t. invoke Monolith (ManagerHideCallback None) t) [5000, 9000]
                   (run Monolith burst (mounted Monolith)))
      = [((str ''A''), info, 400, 4000), ((str ''B''), info, 400, 4000), ((str ''C''), info, 400, 4000)]"
proof -
  let ?B = "\<lparr>message = (str ''B''), toastType = info, options = None\<rparr>"
  let ?C = "\<lparr>message = (str ''C''), toastType = info, options = None\<rparr>"
  let ?s = "run Monolith burst (mounted Monolith)"
  have q: "queue ?s = [?B, ?C]" "toastRef ?s = Some firstRender"
    "displayed ?s = [((str ''A''), info, 400, 4000)]"
    by (simp_all add: run_burst showingA_eq initial_def)
  have e: "entry firstRender ?B = ((str ''B''), info, 400, 4000)"
    "entry firstRender ?C = ((str ''C''), info, 400, 4000)"
    by (simp_all add: entry_def firstRender_def noProps_def orDefault_def optDuration_def
        optAnimationDuration_def propDuration_def propAnimationDuration_def)
  have h: "\<not> isAnimating (?s\<lparr>isAnimating := False\<rparr>)
      \<and> toastRef (?s\<lparr>isAnimating := False\<rparr>) = Some firstRender
      \<and> queue (?s\<lparr>isAnimating := False\<rparr>) = ?B # [?C]"
    "\<not> blank (message ?B)"
    using q by simp_all
  from drain_is_fifo [of "?s\<lparr>isAnimating := False\<rparr>" Monolith 5000 firstRender ?B "[?C]" "[]"] h
  have "displayed (processQueue Monolith 5000 (?s\<lparr>isAnimating := False\<rparr>))
          = displayed (?s\<lparr>isAnimating := False\<rparr>) @ [entry firstRender ?B]"
    by blast
  then have 1: "displayed (processQueue Monolith 5000 (?s\<lparr>isAnimating := False\<rparr>))
      = [((str ''A''), info, 400, 4000), ((str ''B''), info, 400, 4000)]"
    using q(3) e(1) by simp
  from drain_is_fifo [of ?s Monolith 0 firstRender _ _ "[5000, 9000]"] q(2)
  have "displayed (fold (\<lambda>t. invoke Monolith (ManagerHideCallback None) t) [5000, 9000] ?s)
          = displayed ?s @ map (entry firstRender)
              (take (length [5000, 9000 :: int]) (filter (\<lambda>e. \<not> blank (message e)) (queue ?s)))"
    by blast
  then have 2: "displayed (fold (\<lambda>t. invoke Monolith (ManagerHideCallback None) t) [5000, 9000] ?s)
      = [((str ''A''), info, 400, 4000), ((str ''B''), info, 400, 4000), ((str ''C''), info, 400, 4000)]"
    by (simp only: q e list.map take_Suc_conv_app_nth) (simp add: e)
  from 1 2 show ?thesis by blast
qed

section \<open>C7: dismissing while hidden\<close>

text \<open>
  Claim C7 says that a dismiss call made while the toast is hidden invokes its callback
  exactly once whether or not a driver is registered. With no driver registered,
  \<^verbatim>\<open>ToastManager.hide\<close> does nothing: the state is unchanged, the callback is not run and
  is stored nowhere, so it is never run.
\<close>

theorem hide_without_driver_counterexample:
  "hidden (initial noProps) \<and> toastRef (initial noProps) = None
   \<and> useToast_hideToast Modular (Some 7) 10 (initial noProps) = initial noProps
   \<and> 7 \<notin> set (fired (useToast_hideToast Modular (Some 7) 10 (initial noProps)))"
  by (simp add: useToast_hideToast_def mgr_hide_def hidden_def initial_def)

text \<open>
  Claim C7 as amended. While the toast is hidden: \<^verbatim>\<open>hideToast\<close> called on the component
  runs the callback it is given exactly once, at once, and changes nothing else; in the
  modular build, \<^verbatim>\<open>ToastManager.hide\<close> (and the hook's \<^verbatim>\<open>hideToast\<close>) with a driver
  registered runs the caller's callback exactly once, at once, clears the manager's busy
  flag and starts no display and no transition; with no driver registered it does
  nothing and the callback is never run.
\<close>

theorem dismiss_while_hidden:
  assumes "hidden s"
  shows "hideToast b r (Some (UserCallback c)) now s = s\<lparr>fired := fired s @ [c]\<rparr>
     \<and> hideToast b r None now s = s
     \<and> (toastRef s = None \<longrightarrow> mgr_hide b cb now s = s \<and> useToast_hideToast b cb now s = s)
     \<and> (s = run Modular evs (initial p) \<and> toastRef s \<noteq> None \<longrightarrow>
          mgr_hide Modular (Some c) now s = s\<lparr>isAnimating := False, fired := fired s @ [c]\<rparr>
          \<and> useToast_hideToast Modular (Some c) now s
               = s\<lparr>isAnimating := False, fired := fired s @ [c]\<rparr>
          \<and> mgr_hide Modular None now s = s\<lparr>isAnimating := False\<rparr>)"
proof -
  have comp: "hideToast b r (Some (UserCallback c)) now s = s\<lparr>fired := fired s @ [c]\<rparr>
     \<and> hideToast b r None now s = s"
    using assms by (simp add: hideToast_def hidden_def invoke_def)
  have none: "toastRef s = None \<longrightarrow> mgr_hide b cb now s = s \<and> useToast_hideToast b cb now s = s"
    by (simp add: mgr_hide_def useToast_hideToast_def)
  have reg: "mgr_hide Modular (Some c) now s = s\<lparr>isAnimating := False, fired := fired s @ [c]\<rparr>
          \<and> useToast_hideToast Modular (Some c) now s
               = s\<lparr>isAnimating := False, fired := fired s @ [c]\<rparr>
          \<and> mgr_hide Modular None now s = s\<lparr>isAnimating := False\<rparr>"
    if "s = run Modular evs (initial p) \<and> toastRef s \<noteq> None"
  proof -
    have "queue (run Modular evs (initial p)) = []"
      by (rule run_Modular_queue) (simp add: initial_def)
    then have q: "queue s = []" using that by simp
    show ?thesis
      using assms that q
      by (auto simp: mgr_hide_def useToast_hideToast_def hideToast_def hidden_def invoke_def
          processQueue_idle)
  qed
  show ?thesis using comp none reg by blast
qed

theorem dismiss_while_hidden_witness:
  "mgr_hide Modular (Some 7) 10 (mounted Modular)
      = (mounted Modular)\<lparr>isAnimating := False, fired := fired (mounted Modular) @ [7]\<rparr>
   \<and> hideToast Modular firstRender (Some (UserCallback 7)) 10 (initial noProps)
      = (initial noProps)\<lparr>fired := fired (initial noProps) @ [7]\<rparr>"
proof -
  have h: "hidden (mounted Modular)" "hidden (initial noProps)"
    by (simp_all add: hidden_def mounted_Modular initial_def)
  have r: "mounted Modular = run Modular [(SetToastRef (Some firstRender), 0)] (initial noProps)
           \<and> toastRef (mounted Modular) \<noteq> None"
    by (simp add: mounted_def)
  from dismiss_while_hidden [OF h(1), of Modular firstRender 7 10 None
      "[(SetToastRef (Some firstRender), 0)]" noProps] r
    dismiss_while_hidden [OF h(2), of Modular firstRender 7 10 None "[]" noProps]
  show ?thesis by blast
qed

section \<open>C8: the retract sequence\<close>

lemma map_of_filter_out: "map_of (filter (\<lambda>p. fst p \<noteq> i) xs) i = None"
  by (induction xs) auto

lemma updateAnimationStatus_Modular:
  "updateAnimationStatus Modular a now s = s\<lparr>isAnimating_ref := a, isAnimating := a\<rparr>"
  by (simp add: updateAnimationStatus.simps setAnimating.simps)

lemma invoke_Modular_empty:
  "queue s = [] \<Longrightarrow>
     invoke Modular c now s =
       (case c of UserCallback n \<Rightarrow> s\<lparr>fired := fired s @ [n]\<rparr>
        | ManagerHideCallback None \<Rightarrow> s\<lparr>isAnimating := False\<rparr>
        | ManagerHideCallback (Some n) \<Rightarrow> s\<lparr>isAnimating := False, fired := fired s @ [n]\<rparr>)"
  by (simp add: invoke_def processQueue_idle split: callback.splits option.splits)

lemma hideToast_visible:
  assumes "\<not> hidden s"
  shows "hideToast b r cb now s =
     s\<lparr>timer := None,
       timeouts := (case timer s of None \<Rightarrow> timeouts s
                    | Some i \<Rightarrow> filter (\<lambda>p. fst p \<noteq> i) (timeouts s)),
       textOpacity := (textOpacity s)\<lparr>sv_running :=
          Some \<lparr>toValue = 0, anim_duration = cfg_animationDuration (config r) / 2,
                anim_delay = 0, onFinish = None\<rparr>\<rparr>,
       toastWidth := (toastWidth s)\<lparr>sv_running :=
          Some \<lparr>toValue = CONTAINER_SIZE, anim_duration = cfg_animationDuration (config r) / 2,
                anim_delay = cfg_animationDuration (config r) / 2, onFinish = None\<rparr>\<rparr>,
       transY := (transY s)\<lparr>sv_running :=
          Some \<lparr>toValue = - 100, anim_duration = cfg_animationDuration (config r),
                anim_delay = cfg_animationDuration (config r),
                onFinish = Some (CompleteHide cb)\<rparr>\<rparr>\<rparr>"
  using assms
  by (auto simp: hideToast_def hidden_def Let_def clearTimeout_def cancelAnimation_def
      assignAnimation_def withTiming_def withDelay_def split: option.splits)

lemma completeHideAnimation_Modular:
  assumes "queue s = []"
  shows "completeHideAnimation Modular cb now s =
     s\<lparr>isAnimating_ref := False, isAnimating := False,
       configState := (configState s)\<lparr>cfg_text := None, cfg_type := None, cfg_visible := False\<rparr>,
       fired := fired s @ callbackLabels cb\<rparr>"
proof (cases cb)
  case None
  then show ?thesis
    by (simp add: completeHideAnimation_def updateAnimationStatus_Modular resetConfig_def)
next
  case (Some c)
  show ?thesis
  proof (cases c)
    case (UserCallback n)
    with Some show ?thesis
      by (simp add: completeHideAnimation_def updateAnimationStatus_Modular resetConfig_def
          invoke_def)
  next
    case (ManagerHideCallback u)
    with Some assms show ?thesis
      by (cases u)
         (simp_all add: completeHideAnimation_def updateAnimationStatus_Modular resetConfig_def
            invoke_def processQueue_idle)
  qed
qed

lemma finishTransY_exit:
  assumes "sv_running (transY s) = Some a" and "onFinish a = Some (CompleteHide cb)"
  shows "finishTransY b now s =
           completeHideAnimation b cb now (s\<lparr>transY := \<lparr>sv_value = toValue a, sv_running = None\<rparr>\<rparr>)"
  using assms by (simp add: finishTransY_def settle_def)

text \<open>
  What \<^verbatim>\<open>hideToast\<close> does to a toast that is not hidden, with \<open>d\<close> the
  \<^verbatim>\<open>config.animationDuration\<close> that its closure sees: the pending timer is cleared, the
  running transitions are replaced by the three of the retract, and in the modular build
  the end of the last one runs the callback once and leaves the component hidden.
\<close>

lemma hideToast_staging:
  fixes s s' :: system and r :: render and b :: build and cb :: "callback option"
    and now :: int and d :: rat
  assumes "\<not> hidden s"
  defines "d \<equiv> cfg_animationDuration (config r)"
    and "s' \<equiv> hideToast b r cb now s"
  shows "timer s' = None
     \<and> (\<forall>i. timer s = Some i \<longrightarrow> map_of (timeouts s') i = None)
     \<and> sv_running (textOpacity s')
          = Some \<lparr>toValue = 0, anim_duration = d / 2, anim_delay = 0, onFinish = None\<rparr>
     \<and> sv_running (toastWidth s')
          = Some \<lparr>toValue = CONTAINER_SIZE, anim_duration = d / 2, anim_delay = d / 2,
                  onFinish = None\<rparr>
     \<and> sv_running (transY s')
          = Some \<lparr>toValue = - 100, anim_duration = d, anim_delay = d,
                  onFinish = Some (CompleteHide cb)\<rparr>
     \<and> fired s' = fired s \<and> displayed s' = displayed s \<and> isAnimating s' = isAnimating s
     \<and> runTask b (AutoHide r) now s = hideToast b r None now s
     \<and> (b = Modular \<and> s = run Modular evs (initial p) \<longrightarrow>
          hidden (finishTransY b now' s')
          \<and> fired (finishTransY b now' s') = fired s @ callbackLabels cb
          \<and> \<not> isAnimating (finishTransY b now' s')
          \<and> \<not> cfg_visible (configState (finishTransY b now' s'))
          \<and> cfg_text (configState (finishTransY b now' s')) = None
          \<and> displayed (finishTransY b now' s') = displayed s
          \<and> finishTransY b now'' (finishTransY b now' s') = finishTransY b now' s')"
proof -
  note vis = hideToast_visible [OF assms(1), of b r cb now]
  have staging: "timer s' = None
     \<and> (\<forall>i. timer s = Some i \<longrightarrow> map_of (timeouts s') i = None)
     \<and> sv_running (textOpacity s')
          = Some \<lparr>toValue = 0, anim_duration = d / 2, anim_delay = 0, onFinish = None\<rparr>
     \<and> sv_running (toastWidth s')
          = Some \<lparr>toValue = CONTAINER_SIZE, anim_duration = d / 2, anim_delay = d / 2,
                  onFinish = None\<rparr>
     \<and> sv_running (transY s')
          = Some \<lparr>toValue = - 100, anim_duration = d, anim_delay = d,
                  onFinish = Some (CompleteHide cb)\<rparr>
     \<and> fired s' = fired s \<and> displayed s' = displayed s \<and> isAnimating s' = isAnimating s"
    unfolding s'_def d_def vis by (simp add: map_of_filter_out)
  have task: "runTask b (AutoHide r) now s = hideToast b r None now s" by simp
  have fin: "hidden (finishTransY b now' s')
          \<and> fired (finishTransY b now' s') = fired s @ callbackLabels cb
          \<and> \<not> isAnimating (finishTransY b now' s')
          \<and> \<not> cfg_visible (configState (finishTransY b now' s'))
          \<and> cfg_text (configState (finishTransY b now' s')) = None
          \<and> displayed (finishTransY b now' s') = displayed s
          \<and> finishTransY b now'' (finishTransY b now' s') = finishTransY b now' s'"
    if h: "b = Modular \<and> s = run Modular evs (initial p)"
  proof -
    have "queue (run Modular evs (initial p)) = []"
      by (rule run_Modular_queue) (simp add: initial_def)
    then have q: "queue s = []" using h by simp
    have b: "b = Modular" using h by simp
    let ?a = "\<lparr>toValue = - 100, anim_duration = d, anim_delay = d,
               onFinish = Some (CompleteHide cb)\<rparr>"
    let ?s1 = "s'\<lparr>transY := \<lparr>sv_value = toValue ?a, sv_running = None\<rparr>\<rparr>"
    have r: "sv_running (transY s') = Some ?a" using staging by blast
    have q1: "queue ?s1 = []" unfolding s'_def vis using q by simp
    have f: "finishTransY b now' s' = completeHideAnimation Modular cb now' ?s1"
      unfolding b by (rule finishTransY_exit [OF r]) simp
    have e: "finishTransY b now' s' =
       ?s1\<lparr>isAnimating_ref := False, isAnimating := False,
         configState := (configState ?s1)\<lparr>cfg_text := None, cfg_type := None, cfg_visible := False\<rparr>,
         fired := fired ?s1 @ callbackLabels cb\<rparr>"
      unfolding f by (rule completeHideAnimation_Modular [OF q1])
    have x: "fired s' = fired s" "displayed s' = displayed s" using staging by blast+
    show ?thesis
      unfolding e using x by (simp add: hidden_def finishTransY_def)
  qed
  show ?thesis using staging task fin by blast
qed

text \<open>
  Claim C8. When a visible toast is dismissed, the timer and the running transitions are
  cancelled and the retract runs the opacity over half the animation duration, the width
  over half of it after a delay of half of it, and the position over the whole of it after
  a delay of the whole of it; the end of the last transition runs the completion callback
  once and hides the component. The cancelling, the shape of the staging and the
  completion hold (\<open>hideToast_staging\<close>), but the duration that \<^verbatim>\<open>hideToast\<close> uses is
  \<^verbatim>\<open>config.animationDuration\<close> of the render its closure belongs to. The timer that
  \<^verbatim>\<open>showToast\<close> arms and the handle of the mount effect hold closures made before the
  \<^verbatim>\<open>setConfig\<close> of the toast on display. So a toast shown with an animation duration of
  1000 ms, by a component whose default is 400 ms, retracts with 200 ms, 200 ms after
  200 ms and 400 ms after 400 ms, on the auto-dismiss timer and on a call of
  \<^verbatim>\<open>ToastManager.hide\<close> alike, while \<^verbatim>\<open>config.animationDuration\<close> is 1000.
\<close>

theorem retract_uses_stale_duration:
  "cfg_animationDuration (configState (run Modular slowToast (initial noProps))) = 1000
   \<and> timer (run Modular slowToast (initial noProps)) = Some 2
   \<and> sv_value (transY (run Modular slowToast (initial noProps))) = 80
   \<and> sv_running (textOpacity (run Modular autoDismissed (initial noProps)))
        = Some \<lparr>toValue = 0, anim_duration = 200, anim_delay = 0, onFinish = None\<rparr>
   \<and> sv_running (toastWidth (run Modular autoDismissed (initial noProps)))
        = Some \<lparr>toValue = 44, anim_duration = 200, anim_delay = 200, onFinish = None\<rparr>
   \<and> sv_running (transY (run Modular autoDismissed (initial noProps)))
        = Some \<lparr>toValue = - 100, anim_duration = 400, anim_delay = 400,
                onFinish = Some (CompleteHide None)\<rparr>
   \<and> cfg_animationDuration (configState (run Modular autoDismissed (initial noProps))) = 1000
   \<and> sv_running (toastWidth (run Modular slowToast (initial noProps)))
        = Some \<lparr>toValue = 176, anim_duration = 1000, anim_delay = 1000, onFinish = None\<rparr>
   \<and> sv_running (textOpacity (run Modular slowToast (initial noProps)))
        = Some \<lparr>toValue = 1, anim_duration = 1000, anim_delay = 2000, onFinish = None\<rparr>
   \<and> timer (run Modular dismissedEarly (initial noProps)) = None
   \<and> timeouts (run Modular dismissedEarly (initial noProps)) = []
   \<and> sv_running (textOpacity (run Modular dismissedEarly (initial noProps)))
        = Some \<lparr>toValue = 0, anim_duration = 200, anim_delay = 0, onFinish = None\<rparr>
   \<and> sv_running (toastWidth (run Modular dismissedEarly (initial noProps)))
        = Some \<lparr>toValue = 44, anim_duration = 200, anim_delay = 200, onFinish = None\<rparr>
   \<and> sv_running (transY (run Modular dismissedEarly (initial noProps)))
        = Some \<lparr>toValue = - 100, anim_duration = 400, anim_delay = 400,
                onFinish = Some (CompleteHide (Some (ManagerHideCallback (Some 7))))\<rparr>
   \<and> fired (run Modular (dismissedEarly @ [(FinishTransY, 3300)]) (initial noProps)) = [7]
   \<and> hidden (run Modular (dismissedEarly @ [(FinishTransY, 3300)]) (initial noProps))"
  by (simp add: slowToast_def autoDismissed_def dismissedEarly_def mounted_def [symmetric]
      mgr_hide_def hidden_def textWidthEffect_def finishToastWidth_def finishTextOpacity_def
      invoke_def processQueue_idle eval_defs)

section \<open>C3: the end of a toast's lifecycle\<close>

lemma map_of_fresh: "list_all (\<lambda>p. fst p < (n::nat)) xs \<Longrightarrow> map_of (xs @ [(n, t)]) n = Some t"
  by (induction xs) auto

lemma filter_fresh:
  "list_all (\<lambda>p. fst p < (n::nat)) xs \<Longrightarrow> filter (\<lambda>p. fst p \<noteq> n) (xs @ [(n, t)]) = xs"
  by (induction xs) auto

lemma filter_fresh': "list_all (\<lambda>p. fst p < (n::nat)) xs \<Longrightarrow> filter (\<lambda>p. fst p \<noteq> n) xs = xs"
  by (induction xs) auto

lemma list_all_filter: "list_all P xs \<Longrightarrow> list_all P (filter Q xs)"
  by (induction xs) auto

lemma list_all_less_Suc:
  "list_all (\<lambda>p. fst p < n) xs \<Longrightarrow> list_all (\<lambda>p. fst p < Suc n) (xs :: (nat \<times> 'a) list)"
  by (induction xs) auto

lemma before_completion:
  fixes s s3 :: system and b :: build and r :: render and m :: jsstring and ty :: ToastType
    and opts :: "ToastOptions option" and t1 t2 t3 :: int
  assumes "\<not> blank m" and "timeouts_ok s"
  defines "s3 \<equiv> fireTimeout b (Suc (nextTimeout s)) t3
                   (fireTimeout b (nextTimeout s) t2 (ref_show b r m ty opts t1 s))"
  shows "sv_running (transY s3)
           = Some \<lparr>toValue = - 100, anim_duration = cfg_animationDuration (config r),
                   anim_delay = cfg_animationDuration (config r),
                   onFinish = Some (CompleteHide None)\<rparr>"
    and "queue s3 = queue s" and "toastRef s3 = toastRef s"
    and "displayed s3 = displayed s @ [entry r \<lparr>message = m, toastType = ty, options = opts\<rparr>]"
    and "fired s3 = fired s"
proof -
  let ?T0 = "case timer s of None \<Rightarrow> timeouts s
             | Some i \<Rightarrow> filter (\<lambda>p. fst p \<noteq> i) (timeouts s)"
  let ?n = "nextTimeout s"
  have T0: "list_all (\<lambda>p. fst p < ?n) ?T0"
    using assms(2) by (simp add: timeouts_ok_def list_all_filter split: option.splits)
  note T1 = list_all_less_Suc [OF T0]
  let ?ad = "orDefault (optAnimationDuration opts) (propAnimationDuration (props r))"
  let ?dd = "orDefault (optDuration opts) (propDuration (props r))"
  have s3: "s3 = hideToast b r None t3
      (s\<lparr>isAnimating := True, isAnimating_ref := True,
         configState := \<lparr>cfg_text = Some m, cfg_type = Some ty, cfg_visible = True,
                          cfg_duration = ?dd, cfg_animationDuration = ?ad\<rparr>,
         toastWidth := assignValue CONTAINER_SIZE (toastWidth s),
         textOpacity := assignValue 0 (textOpacity s),
         displayed := displayed s @ [(m, ty, ?ad, ?dd)],
         transY := assignAnimation (withTiming 80 ?ad None) (cancelAnimation (transY s)),
         nextTimeout := Suc (Suc ?n), timer := Some (Suc ?n), timeouts := ?T0\<rparr>)"
    unfolding s3_def ref_show_nonblank [OF assms(1)]
    by (simp add: fireTimeout_def started_def setTimeout_def Let_def
        map_of_fresh [OF T0] filter_fresh' [OF T0] map_of_fresh [OF T1] filter_fresh' [OF T1]
        del: map_of_append)
  show "sv_running (transY s3)
           = Some \<lparr>toValue = - 100, anim_duration = cfg_animationDuration (config r),
                   anim_delay = cfg_animationDuration (config r),
                   onFinish = Some (CompleteHide None)\<rparr>"
    unfolding s3 by (subst hideToast_visible) (simp_all add: hidden_def)
  show "queue s3 = queue s"
    unfolding s3 by (subst hideToast_visible) (simp_all add: hidden_def)
  show "toastRef s3 = toastRef s"
    unfolding s3 by (subst hideToast_visible) (simp_all add: hidden_def)
  show "displayed s3 = displayed s @ [entry r \<lparr>message = m, toastType = ty, options = opts\<rparr>]"
    unfolding s3 by (subst hideToast_visible) (simp_all add: hidden_def entry_def)
  show "fired s3 = fired s"
    unfolding s3 by (subst hideToast_visible) (simp_all add: hidden_def)
qed

lemma lifecycle_unfold:
  assumes "\<not> blank m" and "timeouts_ok s"
  shows "\<exists>s3. lifecycle b r m ty opts t1 t2 t3 t4 s
            = resetConfig (updateAnimationStatus b False t4 s3)
          \<and> queue s3 = queue s \<and> toastRef s3 = toastRef s
          \<and> displayed s3 = displayed s @ [entry r \<lparr>message = m, toastType = ty, options = opts\<rparr>]"
proof -
  let ?s3 = "fireTimeout b (Suc (nextTimeout s)) t3
               (fireTimeout b (nextTimeout s) t2 (ref_show b r m ty opts t1 s))"
  note bc = before_completion [OF assms, of b t3 t2 r ty opts t1]
  let ?s3' = "?s3\<lparr>transY := \<lparr>sv_value = - 100, sv_running = None\<rparr>\<rparr>"
  have "lifecycle b r m ty opts t1 t2 t3 t4 s = completeHideAnimation b None t4 ?s3'"
    unfolding lifecycle_def using finishTransY_exit [OF bc(1), of None b t4] by simp
  then have "lifecycle b r m ty opts t1 t2 t3 t4 s
            = resetConfig (updateAnimationStatus b False t4 ?s3')"
    by (simp add: completeHideAnimation_def)
  moreover have "queue ?s3' = queue s" "toastRef ?s3' = toastRef s"
    "displayed ?s3' = displayed s @ [entry r \<lparr>message = m, toastType = ty, options = opts\<rparr>]"
    using bc by simp_all
  ultimately show ?thesis by blast
qed

lemma lifecycle_Monolith:
  assumes "\<not> blank m" and "timeouts_ok s"
  shows "toastRef s = None \<or> queue s = [] \<Longrightarrow>
           \<not> isAnimating (lifecycle Monolith r m ty opts t1 t2 t3 t4 s)
           \<and> displayed (lifecycle Monolith r m ty opts t1 t2 t3 t4 s)
                = displayed s @ [entry r \<lparr>message = m, toastType = ty, options = opts\<rparr>]
           \<and> queue (lifecycle Monolith r m ty opts t1 t2 t3 t4 s) = queue s"
    and "toastRef s = Some r' \<and> queue s = e # q \<and> \<not> blank (message e) \<Longrightarrow>
           isAnimating (lifecycle Monolith r m ty opts t1 t2 t3 t4 s)
           \<and> displayed (lifecycle Monolith r m ty opts t1 t2 t3 t4 s)
                = displayed s @ [entry r \<lparr>message = m, toastType = ty, options = opts\<rparr>, entry r' e]
           \<and> queue (lifecycle Monolith r m ty opts t1 t2 t3 t4 s) = q
           \<and> lastToastTime (lifecycle Monolith r m ty opts t1 t2 t3 t4 s) = t4
           \<and> cfg_text (configState (lifecycle Monolith r m ty opts t1 t2 t3 t4 s)) = None"
proof -
  from lifecycle_unfold [OF assms, of Monolith r ty opts t1 t2 t3 t4] obtain s3 where
    l: "lifecycle Monolith r m ty opts t1 t2 t3 t4 s
          = resetConfig (updateAnimationStatus Monolith False t4 s3)"
    and f: "queue s3 = queue s" "toastRef s3 = toastRef s"
      "displayed s3 = displayed s @ [entry r \<lparr>message = m, toastType = ty, options = opts\<rparr>]"
    by blast
  let ?x = "s3\<lparr>isAnimating_ref := False, isAnimating := False\<rparr>"
  have u: "updateAnimationStatus Monolith False t4 s3 = processQueue Monolith t4 ?x"
    by (simp add: updateAnimationStatus.simps setAnimating.simps)
  show "\<not> isAnimating (lifecycle Monolith r m ty opts t1 t2 t3 t4 s)
           \<and> displayed (lifecycle Monolith r m ty opts t1 t2 t3 t4 s)
                = displayed s @ [entry r \<lparr>message = m, toastType = ty, options = opts\<rparr>]
           \<and> queue (lifecycle Monolith r m ty opts t1 t2 t3 t4 s) = queue s"
    if "toastRef s = None \<or> queue s = []"
  proof -
    have "processQueue Monolith t4 ?x = ?x"
      using that f by (intro processQueue_idle) auto
    then show ?thesis unfolding l u using f by (simp add: resetConfig_def)
  qed
  show "isAnimating (lifecycle Monolith r m ty opts t1 t2 t3 t4 s)
           \<and> displayed (lifecycle Monolith r m ty opts t1 t2 t3 t4 s)
                = displayed s @ [entry r \<lparr>message = m, toastType = ty, options = opts\<rparr>, entry r' e]
           \<and> queue (lifecycle Monolith r m ty opts t1 t2 t3 t4 s) = q
           \<and> lastToastTime (lifecycle Monolith r m ty opts t1 t2 t3 t4 s) = t4
           \<and> cfg_text (configState (lifecycle Monolith r m ty opts t1 t2 t3 t4 s)) = None"
    if "toastRef s = Some r' \<and> queue s = e # q \<and> \<not> blank (message e)"
  proof -
    have "\<not> isAnimating ?x" "toastRef ?x = Some r'" "queue ?x = e # q" "\<not> blank (message e)"
      using that f by simp_all
    note h = processQueue_head [OF this, of Monolith t4]
    show ?thesis unfolding l u h using f by (simp add: resetConfig_def entry_def started_def)
  qed
qed

lemma lifecycle_Modular:
  assumes "\<not> blank m" and "timeouts_ok s"
  shows "\<not> isAnimating (lifecycle Modular r m ty opts t1 t2 t3 t4 s)
           \<and> displayed (lifecycle Modular r m ty opts t1 t2 t3 t4 s)
                = displayed s @ [entry r \<lparr>message = m, toastType = ty, options = opts\<rparr>]
           \<and> queue (lifecycle Modular r m ty opts t1 t2 t3 t4 s) = queue s"
proof -
  from lifecycle_unfold [OF assms, of Modular r ty opts t1 t2 t3 t4] obtain s3 where
    l: "lifecycle Modular r m ty opts t1 t2 t3 t4 s
          = resetConfig (updateAnimationStatus Modular False t4 s3)"
    and f: "queue s3 = queue s" "toastRef s3 = toastRef s"
      "displayed s3 = displayed s @ [entry r \<lparr>message = m, toastType = ty, options = opts\<rparr>]"
    by blast
  show ?thesis unfolding l using f by (simp add: resetConfig_def updateAnimationStatus_Modular)
qed

lemma thenQueued_run:
  "run Monolith thenQueued (initial noProps)
     = lifecycle Monolith firstRender (str ''A'') info None 1000 1000 5000 5800
         ((mounted Monolith)\<lparr>isAnimating := True, lastToastTime := 1000,
            queue := [\<lparr>message = (str ''B''), toastType = info, options = None\<rparr>]\<rparr>)"
  by (simp add: thenQueued_def lifecycle_def mounted_Monolith eval_defs)

text \<open>
  Claim C3. In \<^verbatim>\<open>src/Toast.tsx\<close> every \<^verbatim>\<open>setAnimating(false)\<close> goes on to a drain of
  the queue, and the claim says that after a displayed toast's lifecycle has completed the
  oldest queued request is displayed without a new request call. The drain does hand that
  request to the driver's \<^verbatim>\<open>show\<close>, but it runs inside \<^verbatim>\<open>updateAnimationStatus(false)\<close>,
  the first statement of \<^verbatim>\<open>completeHideAnimation\<close>, and the next statement,
  \<^verbatim>\<open>resetConfig()\<close>, clears the text and the visibility that \<^verbatim>\<open>showToast\<close> has just
  set. In the run below, \<open>B\<close> is requested while \<open>A\<close> is on display; when \<open>A\<close> has gone,
  the manager is busy with \<open>B\<close> and the component renders nothing, and it renders
  nothing while the entry transition of \<open>B\<close> runs, while its auto-dismiss timer is
  pending and when its exit transition has finished. The drain that \<^verbatim>\<open>setToastRef\<close> runs
  has no \<^verbatim>\<open>resetConfig\<close> after it: there the drained toast is rendered.
  (\<open>lifecycle_Monolith\<close> has the general fact.)
\<close>

theorem drained_toast_not_rendered:
  "setAnimating Monolith False 5800 (run Monolith (take 5 thenQueued) (initial noProps))
     = processQueue Monolith 5800
         ((run Monolith (take 5 thenQueued) (initial noProps))\<lparr>isAnimating := False\<rparr>)
   \<and> map message (queue (run Monolith (take 5 thenQueued) (initial noProps))) = [str ''B'']
   \<and> toastRef (run Monolith (take 5 thenQueued) (initial noProps)) = Some firstRender
   \<and> displayed (run Monolith thenQueued (initial noProps))
        = [(str ''A'', info, 400, 4000), (str ''B'', info, 400, 4000)]
   \<and> queue (run Monolith thenQueued (initial noProps)) = []
   \<and> isAnimating (run Monolith thenQueued (initial noProps))
   \<and> cfg_text (configState (run Monolith thenQueued (initial noProps))) = None
   \<and> \<not> cfg_visible (configState (run Monolith thenQueued (initial noProps)))
   \<and> \<not> renders (run Monolith thenQueued (initial noProps))
   \<and> sv_running (transY (run Monolith (take 7 thenDrained) (initial noProps)))
        = Some \<lparr>toValue = 80, anim_duration = 400, anim_delay = 0, onFinish = None\<rparr>
   \<and> \<not> renders (run Monolith (take 7 thenDrained) (initial noProps))
   \<and> timer (run Monolith (take 8 thenDrained) (initial noProps)) = Some 4
   \<and> sv_value (transY (run Monolith (take 8 thenDrained) (initial noProps))) = 80
   \<and> \<not> renders (run Monolith (take 8 thenDrained) (initial noProps))
   \<and> \<not> renders (run Monolith (take 9 thenDrained) (initial noProps))
   \<and> \<not> renders (run Monolith thenDrained (initial noProps))
   \<and> \<not> isAnimating (run Monolith thenDrained (initial noProps))
   \<and> hidden (run Monolith thenDrained (initial noProps))
   \<and> displayed (run Monolith thenDrained (initial noProps))
        = [(str ''A'', info, 400, 4000), (str ''B'', info, 400, 4000)]
   \<and> displayed (setToastRef Monolith (Some firstRender) 2000 (run Monolith early (initial noProps)))
        = [(str ''A'', info, 400, 4000)]
   \<and> renders (setToastRef Monolith (Some firstRender) 2000 (run Monolith early (initial noProps)))"
proof -
  have 1: "setAnimating Monolith False 5800 (run Monolith (take 5 thenQueued) (initial noProps))
     = processQueue Monolith 5800
         ((run Monolith (take 5 thenQueued) (initial noProps))\<lparr>isAnimating := False\<rparr>)"
    by (rule setAnimating_Monolith_False)
  have 2: "map message (queue (run Monolith (take 5 thenQueued) (initial noProps))) = [str ''B'']
   \<and> toastRef (run Monolith (take 5 thenQueued) (initial noProps)) = Some firstRender
   \<and> displayed (run Monolith thenQueued (initial noProps))
        = [(str ''A'', info, 400, 4000), (str ''B'', info, 400, 4000)]
   \<and> queue (run Monolith thenQueued (initial noProps)) = []
   \<and> isAnimating (run Monolith thenQueued (initial noProps))
   \<and> cfg_text (configState (run Monolith thenQueued (initial noProps))) = None
   \<and> \<not> cfg_visible (configState (run Monolith thenQueued (initial noProps)))
   \<and> \<not> renders (run Monolith thenQueued (initial noProps))"
    by (simp add: thenQueued_def mounted_def [symmetric] mounted_Monolith renders_def eval_defs)
  have 3: "displayed (setToastRef Monolith (Some firstRender) 2000 (run Monolith early (initial noProps)))
        = [(str ''A'', info, 400, 4000)]
   \<and> renders (setToastRef Monolith (Some firstRender) 2000 (run Monolith early (initial noProps)))"
    unfolding setToastRef_Monolith_Some
    by (simp add: early_def onReady_def renders_def eval_defs)
  have 4: "sv_running (transY (run Monolith (take 7 thenDrained) (initial noProps)))
        = Some \<lparr>toValue = 80, anim_duration = 400, anim_delay = 0, onFinish = None\<rparr>
   \<and> \<not> renders (run Monolith (take 7 thenDrained) (initial noProps))
   \<and> timer (run Monolith (take 8 thenDrained) (initial noProps)) = Some 4
   \<and> sv_value (transY (run Monolith (take 8 thenDrained) (initial noProps))) = 80
   \<and> \<not> renders (run Monolith (take 8 thenDrained) (initial noProps))
   \<and> \<not> renders (run Monolith (take 9 thenDrained) (initial noProps))
   \<and> \<not> renders (run Monolith thenDrained (initial noProps))
   \<and> \<not> isAnimating (run Monolith thenDrained (initial noProps))
   \<and> hidden (run Monolith thenDrained (initial noProps))
   \<and> displayed (run Monolith thenDrained (initial noProps))
        = [(str ''A'', info, 400, 4000), (str ''B'', info, 400, 4000)]"
    by (simp add: thenDrained_def thenQueued_def mounted_def [symmetric] mounted_Monolith
        renders_def hidden_def eval_defs)
  from 1 2 3 4 show ?thesis by blast
qed

section \<open>Timer identifiers in reachable states\<close>

text \<open>
  The hypothesis \<open>timeouts_ok\<close> of \<open>lifecycle_Monolith\<close> and \<open>lifecycle_Modular\<close> holds in
  every state that a run from the initial state reaches.
\<close>

lemma timeouts_ok_update [simp]:
  "timeouts_ok (s\<lparr>toastRef := x1\<rparr>) = timeouts_ok s"
  "timeouts_ok (s\<lparr>listeners := x2\<rparr>) = timeouts_ok s"
  "timeouts_ok (s\<lparr>isAnimating := x3\<rparr>) = timeouts_ok s"
  "timeouts_ok (s\<lparr>queue := x4\<rparr>) = timeouts_ok s"
  "timeouts_ok (s\<lparr>lastToastTime := x5\<rparr>) = timeouts_ok s"
  "timeouts_ok (s\<lparr>configState := x6\<rparr>) = timeouts_ok s"
  "timeouts_ok (s\<lparr>timer := x7\<rparr>) = timeouts_ok s"
  "timeouts_ok (s\<lparr>isAnimating_ref := x8\<rparr>) = timeouts_ok s"
  "timeouts_ok (s\<lparr>transY := x9\<rparr>) = timeouts_ok s"
  "timeouts_ok (s\<lparr>toastWidth := x10\<rparr>) = timeouts_ok s"
  "timeouts_ok (s\<lparr>textOpacity := x11\<rparr>) = timeouts_ok s"
  "timeouts_ok (s\<lparr>fired := x12\<rparr>) = timeouts_ok s"
  "timeouts_ok (s\<lparr>displayed := x13\<rparr>) = timeouts_ok s"
  by (simp_all add: timeouts_ok_def)

lemma started_timeouts_ok: "timeouts_ok s \<Longrightarrow> timeouts_ok (started r m ty ad dd s)"
  by (auto simp: timeouts_ok_def started_def list_all_iff split: option.splits)

lemma processQueue_timeouts_ok: "timeouts_ok s \<Longrightarrow> timeouts_ok (processQueue b now s)"
proof -
  assume ok: "timeouts_ok s"
  have "timeouts_ok (s\<lparr>queue := q, isAnimating := True, lastToastTime := now\<rparr>)" for q
    using ok by simp
  from started_timeouts_ok [OF this] ok show ?thesis
    by (subst processQueue_closed) (simp split: list.splits)
qed

lemma setAnimating_timeouts_ok: "timeouts_ok s \<Longrightarrow> timeouts_ok (setAnimating b a now s)"
  using processQueue_timeouts_ok [of "s\<lparr>isAnimating := False\<rparr>" b now]
  by (cases b; cases a) (simp_all add: setAnimating.simps)

lemma updateAnimationStatus_timeouts_ok:
  "timeouts_ok s \<Longrightarrow> timeouts_ok (updateAnimationStatus b a now s)"
  using setAnimating_timeouts_ok [of "s\<lparr>isAnimating_ref := a\<rparr>" b a now]
  by (simp add: updateAnimationStatus.simps)

lemma showToast_timeouts_ok: "timeouts_ok s \<Longrightarrow> timeouts_ok (showToast b r m ty ad dd now s)"
proof (cases "blank m")
  case True
  then show "timeouts_ok s \<Longrightarrow> ?thesis"
    by (simp add: showToast.simps updateAnimationStatus_timeouts_ok)
next
  case False
  then show "timeouts_ok s \<Longrightarrow> ?thesis" by (simp add: showToast_nonblank started_timeouts_ok)
qed

lemma ref_show_timeouts_ok: "timeouts_ok s \<Longrightarrow> timeouts_ok (ref_show b r m ty opts now s)"
proof (cases "blank m")
  case True
  then show "timeouts_ok s \<Longrightarrow> ?thesis"
    by (simp add: ref_show.simps updateAnimationStatus_timeouts_ok)
next
  case False
  then show "timeouts_ok s \<Longrightarrow> ?thesis" by (simp add: ref_show_nonblank started_timeouts_ok)
qed

lemma invoke_timeouts_ok: "timeouts_ok s \<Longrightarrow> timeouts_ok (invoke b c now s)"
proof (cases c)
  case (UserCallback n)
  then show "timeouts_ok s \<Longrightarrow> ?thesis" by (simp add: invoke_def)
next
  case (ManagerHideCallback u)
  then show "timeouts_ok s \<Longrightarrow> ?thesis"
    by (cases u) (simp_all add: invoke_def processQueue_timeouts_ok)
qed

lemma hideToast_timeouts_ok: "timeouts_ok s \<Longrightarrow> timeouts_ok (hideToast b r cb now s)"
proof (cases "hidden s")
  case True
  then show "timeouts_ok s \<Longrightarrow> ?thesis"
    by (cases cb) (simp_all add: hideToast_def hidden_def invoke_timeouts_ok)
next
  case False
  show "timeouts_ok s \<Longrightarrow> ?thesis"
    unfolding hideToast_visible [OF False]
    by (auto simp: timeouts_ok_def list_all_iff split: option.splits)
qed

lemma completeHideAnimation_timeouts_ok:
  "timeouts_ok s \<Longrightarrow> timeouts_ok (completeHideAnimation b cb now s)"
proof -
  assume "timeouts_ok s"
  then have "timeouts_ok (updateAnimationStatus b False now s)"
    by (rule updateAnimationStatus_timeouts_ok)
  then have "timeouts_ok (resetConfig (updateAnimationStatus b False now s))"
    by (simp add: resetConfig_def)
  then show ?thesis
    by (cases cb) (simp_all add: completeHideAnimation_def invoke_timeouts_ok)
qed

lemma setToastRef_timeouts_ok: "timeouts_ok s \<Longrightarrow> timeouts_ok (setToastRef b ref now s)"
proof (cases b)
  case Monolith
  show "timeouts_ok s \<Longrightarrow> ?thesis"
  proof (cases ref)
    case None
    with Monolith show "timeouts_ok s \<Longrightarrow> ?thesis" by simp
  next
    case (Some r)
    assume "timeouts_ok s"
    then have "timeouts_ok (s\<lparr>toastRef := Some r\<rparr>)" by simp
    then have "timeouts_ok (processQueue Monolith now (s\<lparr>toastRef := Some r\<rparr>))"
      by (rule processQueue_timeouts_ok)
    then show ?thesis
      unfolding Monolith Some setToastRef_Monolith_Some by simp
  qed
next
  case Modular
  then show "timeouts_ok s \<Longrightarrow> ?thesis" by simp
qed

lemma mgr_show_timeouts_ok: "timeouts_ok s \<Longrightarrow> timeouts_ok (mgr_show b m ty opts now s)"
proof -
  assume ok: "timeouts_ok s"
  have 1: "timeouts_ok (ref_show b r m ty opts now (s\<lparr>isAnimating := True, lastToastTime := now\<rparr>))"
    "timeouts_ok (ref_show b r m ty opts now (s\<lparr>lastToastTime := now, isAnimating := True\<rparr>))"
    for r
    using ok by (simp_all add: ref_show_timeouts_ok)
  show ?thesis
  proof (cases b)
    case Monolith
    then show ?thesis
      using ok 1(1) by (simp add: onReady_def Let_def)
  next
    case Modular
    then show ?thesis
      using ok 1(2) by (simp add: Let_def split: option.splits)
  qed
qed

lemma runTask_timeouts_ok: "timeouts_ok s \<Longrightarrow> timeouts_ok (runTask b t now s)"
proof (cases t)
  case (StartShow r ad dd)
  then show "timeouts_ok s \<Longrightarrow> ?thesis"
    by (auto simp: timeouts_ok_def setTimeout_def Let_def list_all_iff)
next
  case (AutoHide r)
  then show "timeouts_ok s \<Longrightarrow> ?thesis" by (simp add: hideToast_timeouts_ok)
qed

lemma fireTimeout_timeouts_ok: "timeouts_ok s \<Longrightarrow> timeouts_ok (fireTimeout b i now s)"
proof (cases "map_of (timeouts s) i")
  case None
  then show "timeouts_ok s \<Longrightarrow> ?thesis" by (simp add: fireTimeout_def)
next
  case (Some t)
  assume "timeouts_ok s"
  then have "timeouts_ok (s\<lparr>timeouts := filter (\<lambda>p. fst p \<noteq> i) (timeouts s)\<rparr>)"
    by (simp add: timeouts_ok_def list_all_filter)
  then show ?thesis using Some by (simp add: fireTimeout_def runTask_timeouts_ok)
qed

lemma finishTransY_timeouts_ok: "timeouts_ok s \<Longrightarrow> timeouts_ok (finishTransY b now s)"
proof (cases "sv_running (transY s)")
  case None
  then show "timeouts_ok s \<Longrightarrow> ?thesis" by (simp add: finishTransY_def)
next
  case (Some a)
  assume ok: "timeouts_ok s"
  then have 1: "timeouts_ok (s\<lparr>transY := settle (transY s)\<rparr>)" by simp
  show ?thesis
  proof (cases "onFinish a")
    case None
    with Some 1 show ?thesis by (simp add: finishTransY_def)
  next
    case c: (Some c)
    obtain cb where "c = CompleteHide cb" by (cases c)
    with Some c completeHideAnimation_timeouts_ok [OF 1, of b cb now] show ?thesis
      by (simp add: finishTransY_def)
  qed
qed

lemma step_timeouts_ok: "timeouts_ok s \<Longrightarrow> timeouts_ok (step b ev now s)"
  by (cases ev)
     (simp_all add: mgr_show_timeouts_ok mgr_hide_def hideToast_timeouts_ok setToastRef_timeouts_ok
        setAnimating_timeouts_ok useToast_showToast_def useToast_hideToast_def ref_show_timeouts_ok
        fireTimeout_timeouts_ok finishTransY_timeouts_ok finishToastWidth_def finishTextOpacity_def
        textWidthEffect_def Let_def split: option.splits)

lemma reachable_timeouts_ok: "timeouts_ok (run b evs (initial p))"
proof -
  have "timeouts_ok s \<Longrightarrow> timeouts_ok (run b evs s)" for s
    by (induction evs arbitrary: s) (simp_all add: step_timeouts_ok)
  moreover have "timeouts_ok (initial p)" by (simp add: timeouts_ok_def initial_def)
  ultimately show ?thesis by blast
qed

end
